theory Spec2Isabelle
  imports Main "HOL-Library.Word" "HOL-Library.Signed_Division" "HOL-Library.Monad_Syntax"
begin

unbundle bit_operations_syntax

section \<open>Go values used by the package\<close>

text \<open>
  The package \<open>nfs4acl\<close> is embedded function by function: the constants, the ACL type,
  \<open>XAttrLoad\<close>, \<open>XAttrSize\<close>, \<open>PackXAttr\<close> and the mask mutations of \<open>nfs4_acl.go\<close>, and
  \<open>AceGetWhoType\<close>, \<open>AceWhoStringAtomLength\<close>, \<open>NewNFS4ACE\<close>, \<open>PrintACE\<close> and the ACE
  mutators of the ACE source file. The extended-attribute calls of the operating system
  are not part of the model.

  \<^item> \<open>byte\<close> is \<open>uint8\<close>, \<open>uint32\<close> a 32-bit word, \<open>uint\<close> a 64-bit word.
  \<^item> Go's \<open>int\<close> is taken at its 64-bit width. \<open>AceWhoStringAtomLength\<close>, which is exported
    and takes any \<open>int\<close>, has the wrap-around of its arithmetic written out. The cursors
    and sizes inside \<open>XAttrLoad\<close>, \<open>XAttrSize\<close> and \<open>PackXAttr\<close> are written as \<open>int\<close>
    without it: they are bounded by the length of a buffer that fits in memory plus
    \<open>2^32 + 3\<close>, and no addition there wraps.
  \<^item> A Go \<open>string\<close> is a sequence of bytes; it is a \<open>string\<close> here (a list of 8-bit
    characters), and \<open>string(bytes)\<close> and \<open>copy(dst, str)\<close> convert byte by byte.
  \<^item> A \<open>[]byte\<close> is a list of bytes whose capacity equals its length, as
    \<open>make([]byte, n, n)\<close> gives it.
  \<^item> A run-time panic (an index or a slice_range bound out of range) is the result \<open>None\<close> of
    an \<open>option\<close>; a function that returns normally gives \<open>Some\<close> of its results.
  \<^item> A Go \<open>error\<close> result is an \<open>error option\<close>: \<open>None\<close> is \<open>nil\<close>.
\<close>

type_synonym byte = "8 word"
type_synonym uint32 = "32 word"
type_synonym uint = "64 word"

text \<open>The values built by \<open>errors.New\<close> in the package, one constructor for each message:
  "invalid input buffer 'value'", "buffer overflow", "named who not allowed",
  "unsupported who type".\<close>

datatype error = InvalidInputBuffer | BufferOverflow | NamedWhoNotAllowed | UnsupportedWhoType


definition InvalidTargetingArgument :: "error \<Rightarrow> bool" where
  "InvalidTargetingArgument e = (e = NamedWhoNotAllowed \<or> e = UnsupportedWhoType)"

subsection \<open>Strings and bytes\<close>

definition byte_to_char :: "byte \<Rightarrow> char" where
  "byte_to_char b = char_of (unat b)"

definition char_to_byte :: "char \<Rightarrow> byte" where
  "char_to_byte c = of_char c"

text \<open>\<open>string(b)\<close> for a byte slice \<open>b\<close>, and the bytes of a string.\<close>

definition string_of_bytes :: "byte list \<Rightarrow> string" where
  "string_of_bytes b = map byte_to_char b"

definition bytes_of_string :: "string \<Rightarrow> byte list" where
  "bytes_of_string s = map char_to_byte s"

subsection \<open>Slices and \<open>encoding/binary\<close>\<close>

text \<open>\<open>s[lo:]\<close> and \<open>s[lo:hi]\<close>: a bound out of range panics.\<close>

definition slice_from :: "byte list \<Rightarrow> int \<Rightarrow> byte list option" where
  "slice_from s lo =
     (if 0 \<le> lo \<and> lo \<le> int (length s) then Some (drop (nat lo) s) else None)"

definition slice_range :: "byte list \<Rightarrow> int \<Rightarrow> int \<Rightarrow> byte list option" where
  "slice_range s lo hi =
     (if 0 \<le> lo \<and> lo \<le> hi \<and> hi \<le> int (length s)
      then Some (take (nat (hi - lo)) (drop (nat lo) s)) else None)"

text \<open>\<open>binary.BigEndian.Uint32(b)\<close>: panics when \<open>b\<close> has fewer than four bytes.\<close>

definition Uint32 :: "byte list \<Rightarrow> uint32 option" where
  "Uint32 b =
     (if length b < 4 then None
      else Some (ucast (b ! 3) OR push_bit 8 (ucast (b ! 2))
                 OR push_bit 16 (ucast (b ! 1)) OR push_bit 24 (ucast (b ! 0))))"

text \<open>\<open>binary.BigEndian.PutUint32(b, v)\<close>: panics when \<open>b\<close> has fewer than four bytes,
  and otherwise overwrites the first four bytes of \<open>b\<close>.\<close>

definition PutUint32 :: "byte list \<Rightarrow> uint32 \<Rightarrow> byte list option" where
  "PutUint32 b v =
     (if length b < 4 then None
      else Some (b[0 := ucast (drop_bit 24 v), 1 := ucast (drop_bit 16 v),
                   2 := ucast (drop_bit 8 v), 3 := ucast v]))"

text \<open>\<open>copy(dst, src)\<close> overwrites the first \<open>min(len(dst), len(src))\<close> bytes of \<open>dst\<close>.\<close>

definition copy :: "byte list \<Rightarrow> byte list \<Rightarrow> byte list" where
  "copy dst src = (let n = min (length dst) (length src) in take n src @ drop n dst)"

text \<open>A slice \<open>s[lo:]\<close> shares its bytes with \<open>s\<close>: after a write to the slice, \<open>s\<close> is its
  first \<open>lo\<close> bytes followed by the slice_range as written.\<close>

definition write_back :: "byte list \<Rightarrow> int \<Rightarrow> byte list \<Rightarrow> byte list" where
  "write_back s lo t = take (nat lo) s @ t"

text \<open>\<open>binary.BigEndian.PutUint32(s[lo:], v)\<close> and \<open>copy(s[lo:], str)\<close>, as seen from \<open>s\<close>.\<close>

definition PutUint32_at :: "byte list \<Rightarrow> int \<Rightarrow> uint32 \<Rightarrow> byte list option" where
  "PutUint32_at s lo v =
     do { t \<leftarrow> slice_from s lo; t' \<leftarrow> PutUint32 t v; Some (write_back s lo t') }"

definition copy_at :: "byte list \<Rightarrow> int \<Rightarrow> string \<Rightarrow> byte list option" where
  "copy_at s lo str =
     do { t \<leftarrow> slice_from s lo; Some (write_back s lo (copy t (bytes_of_string str))) }"

section \<open>Constants\<close>

definition ATOM_SIZE :: int where "ATOM_SIZE = 4"

definition NFS4_ACL_WHO_OWNER_STRING :: string where "NFS4_ACL_WHO_OWNER_STRING = ''OWNER@''"
definition NFS4_ACL_WHO_GROUP_STRING :: string where "NFS4_ACL_WHO_GROUP_STRING = ''GROUP@''"
definition NFS4_ACL_WHO_EVERYONE_STRING :: string where
  "NFS4_ACL_WHO_EVERYONE_STRING = ''EVERYONE@''"

definition NFS4_ACL_WHO_NAMED :: uint where "NFS4_ACL_WHO_NAMED = 0"
definition NFS4_ACL_WHO_OWNER :: uint where "NFS4_ACL_WHO_OWNER = 1"
definition NFS4_ACL_WHO_GROUP :: uint where "NFS4_ACL_WHO_GROUP = 2"
definition NFS4_ACL_WHO_EVERYONE :: uint where "NFS4_ACL_WHO_EVERYONE = 3"

definition NFS4_ACE_ACCESS_ALLOWED_ACE_TYPE :: uint32 where
  "NFS4_ACE_ACCESS_ALLOWED_ACE_TYPE = 0"
definition NFS4_ACE_ACCESS_DENIED_ACE_TYPE :: uint32 where
  "NFS4_ACE_ACCESS_DENIED_ACE_TYPE = 1"
definition NFS4_ACE_SYSTEM_AUDIT_ACE_TYPE :: uint32 where
  "NFS4_ACE_SYSTEM_AUDIT_ACE_TYPE = 2"
definition NFS4_ACE_SYSTEM_ALARM_ACE_TYPE :: uint32 where
  "NFS4_ACE_SYSTEM_ALARM_ACE_TYPE = 3"

definition TYPE_ALLOW :: char where "TYPE_ALLOW = CHR ''A''"
definition TYPE_DENY :: char where "TYPE_DENY = CHR ''D''"
definition TYPE_AUDIT :: char where "TYPE_AUDIT = CHR ''U''"
definition TYPE_ALARM :: char where "TYPE_ALARM = CHR ''L''"

text \<open>The flag bits are \<open>1 << iota\<close>: 1, 2, 4, ..., 512.\<close>

definition NFS4_ACE_FILE_INHERIT_ACE :: uint32 where "NFS4_ACE_FILE_INHERIT_ACE = 0x1"
definition NFS4_ACE_DIRECTORY_INHERIT_ACE :: uint32 where
  "NFS4_ACE_DIRECTORY_INHERIT_ACE = 0x2"
definition NFS4_ACE_NO_PROPAGATE_INHERIT_ACE :: uint32 where
  "NFS4_ACE_NO_PROPAGATE_INHERIT_ACE = 0x4"
definition NFS4_ACE_INHERIT_ONLY_ACE :: uint32 where "NFS4_ACE_INHERIT_ONLY_ACE = 0x8"
definition NFS4_ACE_SUCCESSFUL_ACCESS_ACE_FLAG :: uint32 where
  "NFS4_ACE_SUCCESSFUL_ACCESS_ACE_FLAG = 0x10"
definition NFS4_ACE_FAILED_ACCESS_ACE_FLAG :: uint32 where
  "NFS4_ACE_FAILED_ACCESS_ACE_FLAG = 0x20"
definition NFS4_ACE_IDENTIFIER_GROUP :: uint32 where "NFS4_ACE_IDENTIFIER_GROUP = 0x40"
definition NFS4_ACE_OWNER :: uint32 where "NFS4_ACE_OWNER = 0x80"
definition NFS4_ACE_GROUP :: uint32 where "NFS4_ACE_GROUP = 0x100"
definition NFS4_ACE_EVERYONE :: uint32 where "NFS4_ACE_EVERYONE = 0x200"

definition FLAG_FILE_INHERIT :: char where "FLAG_FILE_INHERIT = CHR ''f''"
definition FLAG_DIR_INHERIT :: char where "FLAG_DIR_INHERIT = CHR ''d''"
definition FLAG_NO_PROPAGATE_INHERIT :: char where "FLAG_NO_PROPAGATE_INHERIT = CHR ''n''"
definition FLAG_INHERIT_ONLY :: char where "FLAG_INHERIT_ONLY = CHR ''i''"
definition FLAG_SUCCESSFUL_ACCESS :: char where "FLAG_SUCCESSFUL_ACCESS = CHR ''S''"
definition FLAG_FAILED_ACCESS :: char where "FLAG_FAILED_ACCESS = CHR ''F''"
definition FLAG_GROUP :: char where "FLAG_GROUP = CHR ''g''"
definition FLAG_OWNER_AT :: char where "FLAG_OWNER_AT = CHR ''O''"
definition FLAG_GROUP_AT :: char where "FLAG_GROUP_AT = CHR ''G''"
definition FLAG_EVERYONE_AT :: char where "FLAG_EVERYONE_AT = CHR ''E''"

definition NFS4_ACE_READ_DATA :: uint32 where "NFS4_ACE_READ_DATA = 0x00000001"
definition NFS4_ACE_LIST_DIRECTORY :: uint32 where "NFS4_ACE_LIST_DIRECTORY = 0x00000001"
definition NFS4_ACE_WRITE_DATA :: uint32 where "NFS4_ACE_WRITE_DATA = 0x00000002"
definition NFS4_ACE_ADD_FILE :: uint32 where "NFS4_ACE_ADD_FILE = 0x00000002"
definition NFS4_ACE_APPEND_DATA :: uint32 where "NFS4_ACE_APPEND_DATA = 0x00000004"
definition NFS4_ACE_ADD_SUBDIRECTORY :: uint32 where "NFS4_ACE_ADD_SUBDIRECTORY = 0x00000004"
definition NFS4_ACE_READ_NAMED_ATTRS :: uint32 where "NFS4_ACE_READ_NAMED_ATTRS = 0x00000008"
definition NFS4_ACE_WRITE_NAMED_ATTRS :: uint32 where "NFS4_ACE_WRITE_NAMED_ATTRS = 0x00000010"
definition NFS4_ACE_EXECUTE :: uint32 where "NFS4_ACE_EXECUTE = 0x00000020"
definition NFS4_ACE_DELETE_CHILD :: uint32 where "NFS4_ACE_DELETE_CHILD = 0x00000040"
definition NFS4_ACE_READ_ATTRIBUTES :: uint32 where "NFS4_ACE_READ_ATTRIBUTES = 0x00000080"
definition NFS4_ACE_WRITE_ATTRIBUTES :: uint32 where "NFS4_ACE_WRITE_ATTRIBUTES = 0x00000100"
definition NFS4_ACE_DELETE :: uint32 where "NFS4_ACE_DELETE = 0x00010000"
definition NFS4_ACE_READ_ACL :: uint32 where "NFS4_ACE_READ_ACL = 0x00020000"
definition NFS4_ACE_WRITE_ACL :: uint32 where "NFS4_ACE_WRITE_ACL = 0x00040000"
definition NFS4_ACE_WRITE_OWNER :: uint32 where "NFS4_ACE_WRITE_OWNER = 0x00080000"
definition NFS4_ACE_SYNCHRONIZE :: uint32 where "NFS4_ACE_SYNCHRONIZE = 0x00100000"

definition PERM_READ_DATA :: char where "PERM_READ_DATA = CHR ''r''"
definition PERM_WRITE_DATA :: char where "PERM_WRITE_DATA = CHR ''w''"
definition PERM_APPEND_DATA :: char where "PERM_APPEND_DATA = CHR ''a''"
definition PERM_LIST_DIR :: char where "PERM_LIST_DIR = PERM_READ_DATA"
definition PERM_CREATE_FILE :: char where "PERM_CREATE_FILE = PERM_WRITE_DATA"
definition PERM_CREATE_SUBDIR :: char where "PERM_CREATE_SUBDIR = PERM_APPEND_DATA"
definition PERM_DELETE_CHILD :: char where "PERM_DELETE_CHILD = CHR ''D''"
definition PERM_DELETE :: char where "PERM_DELETE = CHR ''d''"
definition PERM_EXECUTE :: char where "PERM_EXECUTE = CHR ''x''"
definition PERM_READ_ATTR :: char where "PERM_READ_ATTR = CHR ''t''"
definition PERM_WRITE_ATTR :: char where "PERM_WRITE_ATTR = CHR ''T''"
definition PERM_READ_NAMED_ATTR :: char where "PERM_READ_NAMED_ATTR = CHR ''n''"
definition PERM_WRITE_NAMED_ATTR :: char where "PERM_WRITE_NAMED_ATTR = CHR ''N''"
definition PERM_READ_ACL :: char where "PERM_READ_ACL = CHR ''c''"
definition PERM_WRITE_ACL :: char where "PERM_WRITE_ACL = CHR ''C''"
definition PERM_WRITE_OWNER :: char where "PERM_WRITE_OWNER = CHR ''o''"
definition PERM_SYNCHRONIZE :: char where "PERM_SYNCHRONIZE = CHR ''y''"

section \<open>The ACE\<close>

text \<open>\<open>AceGetWhoType\<close>: a \<open>switch\<close> on the string, with \<open>NFS4_ACL_WHO_NAMED\<close> after it.\<close>

definition AceGetWhoType :: "string \<Rightarrow> uint" where
  "AceGetWhoType who =
     (if who = NFS4_ACL_WHO_OWNER_STRING then NFS4_ACL_WHO_OWNER
      else if who = NFS4_ACL_WHO_GROUP_STRING then NFS4_ACL_WHO_GROUP
      else if who = NFS4_ACL_WHO_EVERYONE_STRING then NFS4_ACL_WHO_EVERYONE
      else NFS4_ACL_WHO_NAMED)"

text \<open>Go's \<open>int\<close> has 64 bits: the result of \<open>*\<close> and \<open>+\<close> is the mathematical result
  wrapped into the range from \<open>-2^63\<close> to \<open>2^63 - 1\<close>.\<close>

definition wrap_int :: "int \<Rightarrow> int" where
  "wrap_int x = (x + 9223372036854775808) mod 18446744073709551616 - 9223372036854775808"

text \<open>\<open>AceWhoStringAtomLength\<close>, an exported function of any \<open>int\<close> (an argument from
  \<open>-2^63\<close> to \<open>2^63 - 1\<close>). Go's \<open>/\<close> on \<open>int\<close> truncates towards zero: \<open>sdiv\<close>; the product
  and the sum wrap.\<close>

definition AceWhoStringAtomLength :: "int \<Rightarrow> int" where
  "AceWhoStringAtomLength whoLength =
     (let whoIncrement = wrap_int ((whoLength sdiv ATOM_SIZE) * ATOM_SIZE)
      in if whoIncrement < whoLength then wrap_int (whoIncrement + ATOM_SIZE)
         else whoIncrement)"

record NFS4ACE =
  AceType :: uint32
  WhoType :: uint
  Who :: string
  Flags :: uint32
  AccessMask :: uint32

definition NewNFS4ACE :: "uint32 \<Rightarrow> uint32 \<Rightarrow> uint32 \<Rightarrow> string \<Rightarrow> NFS4ACE" where
  "NewNFS4ACE aceType flag mask' who =
     \<lparr>AceType = aceType, WhoType = AceGetWhoType who, Who = who,
      Flags = flag, AccessMask = mask'\<rparr>"

text \<open>The mask and flag mutators of one ACE. The receiver is a pointer in the source;
  the function returns the ACE as it is after the call.\<close>

definition applyAccessMask :: "NFS4ACE \<Rightarrow> uint32 \<Rightarrow> NFS4ACE" where
  "applyAccessMask ace accessMask = ace\<lparr>AccessMask := AccessMask ace OR accessMask\<rparr>"

definition removeAccessMask :: "NFS4ACE \<Rightarrow> uint32 \<Rightarrow> NFS4ACE" where
  "removeAccessMask ace accessMask = ace\<lparr>AccessMask := AccessMask ace AND NOT accessMask\<rparr>"

definition setAccessMask :: "NFS4ACE \<Rightarrow> uint32 \<Rightarrow> NFS4ACE" where
  "setAccessMask ace accessMask = ace\<lparr>AccessMask := accessMask\<rparr>"

definition applyFlags :: "NFS4ACE \<Rightarrow> uint32 \<Rightarrow> NFS4ACE" where
  "applyFlags ace flags = ace\<lparr>Flags := Flags ace OR flags\<rparr>"

definition removeFlags :: "NFS4ACE \<Rightarrow> uint32 \<Rightarrow> NFS4ACE" where
  "removeFlags ace flags = ace\<lparr>Flags := Flags ace AND NOT flags\<rparr>"

definition setFlags :: "NFS4ACE \<Rightarrow> uint32 \<Rightarrow> NFS4ACE" where
  "setFlags ace flags = ace\<lparr>Flags := flags\<rparr>"

text \<open>\<open>PrintACE\<close> fills a \<open>bytes.Buffer\<close> and prints it as one line. The buffer is the
  string written so far; every rune written is ASCII, one byte.\<close>

definition WriteString :: "string \<Rightarrow> string \<Rightarrow> string" where
  "WriteString buffer s = buffer @ s"

definition WriteRune :: "string \<Rightarrow> char \<Rightarrow> string" where
  "WriteRune buffer r = buffer @ [r]"

text \<open>The contents of the buffer when \<open>PrintACE\<close> reaches \<open>fmt.Println\<close>.\<close>

definition PrintACE_buffer :: "NFS4ACE \<Rightarrow> bool \<Rightarrow> bool \<Rightarrow> string" where
  "PrintACE_buffer ace verbose isDir =
     (let buffer = [];
          buffer =
            (if verbose then
               (if AceType ace = NFS4_ACE_ACCESS_ALLOWED_ACE_TYPE then WriteString buffer ''ALLOW''
                else if AceType ace = NFS4_ACE_ACCESS_DENIED_ACE_TYPE then WriteString buffer ''DENY''
                else if AceType ace = NFS4_ACE_SYSTEM_AUDIT_ACE_TYPE then WriteString buffer ''AUDIT''
                else if AceType ace = NFS4_ACE_SYSTEM_ALARM_ACE_TYPE then WriteString buffer ''ALARM''
                else buffer)
             else
               (if AceType ace = NFS4_ACE_ACCESS_ALLOWED_ACE_TYPE then WriteRune buffer TYPE_ALLOW
                else if AceType ace = NFS4_ACE_ACCESS_DENIED_ACE_TYPE then WriteRune buffer TYPE_DENY
                else if AceType ace = NFS4_ACE_SYSTEM_AUDIT_ACE_TYPE then WriteRune buffer TYPE_AUDIT
                else if AceType ace = NFS4_ACE_SYSTEM_ALARM_ACE_TYPE then WriteRune buffer TYPE_ALARM
                else buffer));
          buffer = WriteRune buffer (CHR '':'');
          buffer = (if Flags ace AND NFS4_ACE_FILE_INHERIT_ACE \<noteq> 0
                    then WriteRune buffer FLAG_FILE_INHERIT else buffer);
          buffer = (if Flags ace AND NFS4_ACE_DIRECTORY_INHERIT_ACE \<noteq> 0
                    then WriteRune buffer FLAG_DIR_INHERIT else buffer);
          buffer = (if Flags ace AND NFS4_ACE_NO_PROPAGATE_INHERIT_ACE \<noteq> 0
                    then WriteRune buffer FLAG_NO_PROPAGATE_INHERIT else buffer);
          buffer = (if Flags ace AND NFS4_ACE_INHERIT_ONLY_ACE \<noteq> 0
                    then WriteRune buffer FLAG_INHERIT_ONLY else buffer);
          buffer = (if Flags ace AND NFS4_ACE_SUCCESSFUL_ACCESS_ACE_FLAG \<noteq> 0
                    then WriteRune buffer FLAG_SUCCESSFUL_ACCESS else buffer);
          buffer = (if Flags ace AND NFS4_ACE_FAILED_ACCESS_ACE_FLAG \<noteq> 0
                    then WriteRune buffer FLAG_FAILED_ACCESS else buffer);
          buffer = (if Flags ace AND NFS4_ACE_IDENTIFIER_GROUP \<noteq> 0
                    then WriteRune buffer FLAG_GROUP else buffer);
          buffer = (if Flags ace AND NFS4_ACE_OWNER \<noteq> 0
                    then WriteRune buffer FLAG_OWNER_AT else buffer);
          buffer = (if Flags ace AND NFS4_ACE_GROUP \<noteq> 0
                    then WriteRune buffer FLAG_GROUP_AT else buffer);
          buffer = (if Flags ace AND NFS4_ACE_EVERYONE \<noteq> 0
                    then WriteRune buffer FLAG_EVERYONE_AT else buffer);
          buffer = WriteRune buffer (CHR '':'');
          buffer = WriteString buffer (Who ace);
          buffer = WriteRune buffer (CHR '':'');
          buffer =
            (if isDir then
               (let buffer = (if AccessMask ace AND NFS4_ACE_LIST_DIRECTORY \<noteq> 0
                              then WriteRune buffer PERM_LIST_DIR else buffer);
                    buffer = (if AccessMask ace AND NFS4_ACE_ADD_FILE \<noteq> 0
                              then WriteRune buffer PERM_CREATE_FILE else buffer);
                    buffer = (if AccessMask ace AND NFS4_ACE_ADD_SUBDIRECTORY \<noteq> 0
                              then WriteRune buffer PERM_CREATE_SUBDIR else buffer);
                    buffer = (if AccessMask ace AND NFS4_ACE_DELETE_CHILD \<noteq> 0
                              then WriteRune buffer PERM_DELETE_CHILD else buffer)
                in buffer)
             else
               (let buffer = (if AccessMask ace AND NFS4_ACE_READ_DATA \<noteq> 0
                              then WriteRune buffer PERM_READ_DATA else buffer);
                    buffer = (if AccessMask ace AND NFS4_ACE_WRITE_DATA \<noteq> 0
                              then WriteRune buffer PERM_WRITE_DATA else buffer);
                    buffer = (if AccessMask ace AND NFS4_ACE_APPEND_DATA \<noteq> 0
                              then WriteRune buffer PERM_APPEND_DATA else buffer)
                in buffer));
          buffer = (if AccessMask ace AND NFS4_ACE_DELETE \<noteq> 0
                    then WriteRune buffer PERM_DELETE else buffer);
          buffer = (if AccessMask ace AND NFS4_ACE_EXECUTE \<noteq> 0
                    then WriteRune buffer PERM_EXECUTE else buffer);
          buffer = (if AccessMask ace AND NFS4_ACE_READ_ATTRIBUTES \<noteq> 0
                    then WriteRune buffer PERM_READ_ATTR else buffer);
          buffer = (if AccessMask ace AND NFS4_ACE_WRITE_ATTRIBUTES \<noteq> 0
                    then WriteRune buffer PERM_WRITE_ATTR else buffer);
          buffer = (if AccessMask ace AND NFS4_ACE_READ_NAMED_ATTRS \<noteq> 0
                    then WriteRune buffer PERM_READ_NAMED_ATTR else buffer);
          buffer = (if AccessMask ace AND NFS4_ACE_WRITE_NAMED_ATTRS \<noteq> 0
                    then WriteRune buffer PERM_WRITE_NAMED_ATTR else buffer);
          buffer = (if AccessMask ace AND NFS4_ACE_READ_ACL \<noteq> 0
                    then WriteRune buffer PERM_READ_ACL else buffer);
          buffer = (if AccessMask ace AND NFS4_ACE_WRITE_ACL \<noteq> 0
                    then WriteRune buffer PERM_WRITE_ACL else buffer);
          buffer = (if AccessMask ace AND NFS4_ACE_WRITE_OWNER \<noteq> 0
                    then WriteRune buffer PERM_WRITE_OWNER else buffer);
          buffer = (if AccessMask ace AND NFS4_ACE_SYNCHRONIZE \<noteq> 0
                    then WriteRune buffer PERM_SYNCHRONIZE else buffer)
      in buffer)"

text \<open>\<open>PrintACE\<close>: standard output is the list of lines printed so far; the call adds the
  buffer as one line and returns \<open>nil\<close>.\<close>

definition PrintACE :: "string list \<Rightarrow> NFS4ACE \<Rightarrow> bool \<Rightarrow> bool \<Rightarrow> string list \<times> error option" where
  "PrintACE stdout ace verbose isDir = (stdout @ [PrintACE_buffer ace verbose isDir], None)"

section \<open>The ACL and its codec\<close>

record NFS4ACL =
  isDirectory :: bool
  aceList :: "NFS4ACE list"

text \<open>The loop of \<open>XAttrLoad\<close>, from a state \<open>(curAce, curAtom, newACL)\<close> at the loop test.
  A bare \<open>return\<close> gives the named results \<open>newACL\<close> and \<open>err\<close> as they are.\<close>

function XAttrLoad_loop ::
  "byte list \<Rightarrow> int \<Rightarrow> int \<Rightarrow> int \<Rightarrow> int \<Rightarrow> NFS4ACL \<Rightarrow> (NFS4ACL \<times> error option) option" where
  "XAttrLoad_loop value maxAtom numAces curAce curAtom newACL =
     (if curAce < numAces then
        if curAtom \<ge> maxAtom then Some (newACL, Some BufferOverflow)
        else if curAtom + ATOM_SIZE * 4 \<ge> maxAtom then Some (newACL, Some BufferOverflow)
        else do {
          b \<leftarrow> slice_from value curAtom;
          aceType \<leftarrow> Uint32 b;
          let curAtom = curAtom + ATOM_SIZE;
          b \<leftarrow> slice_from value curAtom;
          aceFlag \<leftarrow> Uint32 b;
          let curAtom = curAtom + ATOM_SIZE;
          b \<leftarrow> slice_from value curAtom;
          aceMask \<leftarrow> Uint32 b;
          let curAtom = curAtom + ATOM_SIZE;
          b \<leftarrow> slice_from value curAtom;
          w \<leftarrow> Uint32 b;
          let whoLen = uint w;
          let curAtom = curAtom + ATOM_SIZE;
          b \<leftarrow> slice_range value curAtom (whoLen + curAtom);
          let aceWho = string_of_bytes b;
          let curAtom = curAtom + AceWhoStringAtomLength whoLen;
          let newACE = NewNFS4ACE aceType aceFlag aceMask aceWho;
          XAttrLoad_loop value maxAtom numAces (curAce + 1) curAtom
            (newACL\<lparr>aceList := aceList newACL @ [newACE]\<rparr>)
        }
      else Some (newACL, None))"
  by pat_completeness auto
termination
  by (relation "measure (\<lambda>(value, maxAtom, numAces, curAce, curAtom, newACL).
        nat (numAces - curAce))") auto

declare XAttrLoad_loop.simps [simp del]

text \<open>\<open>XAttrLoad\<close>: the result is \<open>None\<close> when the call panics, and otherwise the pair
  \<open>(newACL, err)\<close> that the function returns.\<close>

definition XAttrLoad :: "byte list \<Rightarrow> bool \<Rightarrow> (NFS4ACL \<times> error option) option" where
  "XAttrLoad value isDir =
     (let newACL = \<lparr>isDirectory = isDir, aceList = []\<rparr>;
          curAtom = 0;
          maxAtom = int (length value)
      in if maxAtom < ATOM_SIZE then Some (newACL, Some InvalidInputBuffer)
         else do {
           b \<leftarrow> slice_from value curAtom;
           n \<leftarrow> Uint32 b;
           let numAces = uint n;
           let curAtom = curAtom + ATOM_SIZE;
           XAttrLoad_loop value maxAtom numAces 0 curAtom newACL
         })"

text \<open>\<open>XAttrSize\<close>: the \<open>range\<close> loop over the entries, from the size so far.\<close>

fun XAttrSize_range :: "NFS4ACE list \<Rightarrow> int \<Rightarrow> int" where
  "XAttrSize_range [] xAttrSize = xAttrSize"
| "XAttrSize_range (ace # rest) xAttrSize =
     XAttrSize_range rest
       (xAttrSize + ATOM_SIZE * 4 + AceWhoStringAtomLength (int (length (Who ace))))"

definition XAttrSize :: "NFS4ACL \<Rightarrow> int" where
  "XAttrSize acl = XAttrSize_range (aceList acl) ATOM_SIZE"

text \<open>\<open>make([]byte, n, n)\<close>: \<open>n\<close> zero bytes; a negative length panics.\<close>

definition make :: "int \<Rightarrow> byte list option" where
  "make n = (if n < 0 then None else Some (replicate (nat n) 0))"

text \<open>\<open>PackXAttr\<close>: the \<open>range\<close> loop over the entries, from the buffer and the cursor
  so far; then the function itself, which returns the buffer and a \<open>nil\<close> error.\<close>

fun PackXAttr_range :: "NFS4ACE list \<Rightarrow> byte list \<Rightarrow> int \<Rightarrow> byte list option" where
  "PackXAttr_range [] xattr currAtom = Some xattr"
| "PackXAttr_range (ace # rest) xattr currAtom =
     do {
       xattr \<leftarrow> PutUint32_at xattr currAtom (AceType ace);
       let currAtom = currAtom + ATOM_SIZE;
       xattr \<leftarrow> PutUint32_at xattr currAtom (Flags ace);
       let currAtom = currAtom + ATOM_SIZE;
       xattr \<leftarrow> PutUint32_at xattr currAtom (AccessMask ace);
       let currAtom = currAtom + ATOM_SIZE;
       let whoLen = int (length (Who ace));
       xattr \<leftarrow> PutUint32_at xattr currAtom (word_of_int whoLen);
       let currAtom = currAtom + ATOM_SIZE;
       xattr \<leftarrow> copy_at xattr currAtom (Who ace);
       let currAtom = currAtom + AceWhoStringAtomLength whoLen;
       PackXAttr_range rest xattr currAtom
     }"

definition PackXAttr :: "NFS4ACL \<Rightarrow> (byte list \<times> error option) option" where
  "PackXAttr acl =
     (let aclSize = XAttrSize acl
      in do {
        xattr \<leftarrow> make aclSize;
        let currAtom = 0;
        xattr \<leftarrow> PutUint32_at xattr currAtom (word_of_int (int (length (aceList acl))));
        let currAtom = currAtom + ATOM_SIZE;
        xattr \<leftarrow> PackXAttr_range (aceList acl) xattr currAtom;
        Some (xattr, None)
      })"

text \<open>\<open>PrintACL\<close> prints every entry in order and returns \<open>nil\<close>.\<close>

definition PrintACL :: "string list \<Rightarrow> NFS4ACL \<Rightarrow> bool \<Rightarrow> string list \<times> error option" where
  "PrintACL stdout acl verbose =
     (fold (\<lambda>ace out. fst (PrintACE out ace verbose (isDirectory acl))) (aceList acl) stdout,
      None)"

section \<open>Mutation of the access masks of an ACL\<close>

text \<open>Each method ranges over \<open>acl.aceList\<close> and calls the ACE mutator on the entries it
  selects. The entries are pointers in the source; the model holds the entries by value
  and returns the ACL as it is after the call. (The three mutators are idempotent, so an
  entry that the list holds twice ends the same.) The methods without an \<open>error\<close> result
  return the ACL alone.\<close>

definition ApplyAccessMask :: "NFS4ACL \<Rightarrow> uint32 \<Rightarrow> NFS4ACL" where
  "ApplyAccessMask acl accessMask =
     acl\<lparr>aceList := map (\<lambda>ace. applyAccessMask ace accessMask) (aceList acl)\<rparr>"

definition ApplyAccessMaskByWhoType :: "NFS4ACL \<Rightarrow> uint32 \<Rightarrow> uint \<Rightarrow> NFS4ACL \<times> error option" where
  "ApplyAccessMaskByWhoType acl accessMask whoType =
     (if whoType = NFS4_ACL_WHO_NAMED then (acl, Some NamedWhoNotAllowed)
      else if whoType < NFS4_ACL_WHO_NAMED \<or> whoType > NFS4_ACL_WHO_EVERYONE
      then (acl, Some UnsupportedWhoType)
      else (acl\<lparr>aceList :=
                  map (\<lambda>ace. if WhoType ace = whoType then applyAccessMask ace accessMask else ace)
                    (aceList acl)\<rparr>, None))"

definition ApplyAccessMaskByWho :: "NFS4ACL \<Rightarrow> uint32 \<Rightarrow> string \<Rightarrow> NFS4ACL \<times> error option" where
  "ApplyAccessMaskByWho acl accessMask who =
     (acl\<lparr>aceList :=
             map (\<lambda>ace. if Who ace = who then applyAccessMask ace accessMask else ace)
               (aceList acl)\<rparr>, None)"

definition RemoveAccessMask :: "NFS4ACL \<Rightarrow> uint32 \<Rightarrow> NFS4ACL" where
  "RemoveAccessMask acl accessMask =
     acl\<lparr>aceList := map (\<lambda>ace. removeAccessMask ace accessMask) (aceList acl)\<rparr>"

definition RemoveAccessMaskByWhoType :: "NFS4ACL \<Rightarrow> uint32 \<Rightarrow> uint \<Rightarrow> NFS4ACL \<times> error option" where
  "RemoveAccessMaskByWhoType acl accessMask whoType =
     (if whoType = NFS4_ACL_WHO_NAMED then (acl, Some NamedWhoNotAllowed)
      else if whoType < NFS4_ACL_WHO_NAMED \<or> whoType > NFS4_ACL_WHO_EVERYONE
      then (acl, Some UnsupportedWhoType)
      else (acl\<lparr>aceList :=
                  map (\<lambda>ace. if WhoType ace = whoType then removeAccessMask ace accessMask else ace)
                    (aceList acl)\<rparr>, None))"

definition RemoveAccessMaskByWho :: "NFS4ACL \<Rightarrow> uint32 \<Rightarrow> string \<Rightarrow> NFS4ACL \<times> error option" where
  "RemoveAccessMaskByWho acl accessMask who =
     (acl\<lparr>aceList :=
             map (\<lambda>ace. if Who ace = who then removeAccessMask ace accessMask else ace)
               (aceList acl)\<rparr>, None)"

definition SetAccessMask :: "NFS4ACL \<Rightarrow> uint32 \<Rightarrow> NFS4ACL" where
  "SetAccessMask acl accessMask =
     acl\<lparr>aceList := map (\<lambda>ace. setAccessMask ace accessMask) (aceList acl)\<rparr>"

definition SetAccessMaskByWhoType :: "NFS4ACL \<Rightarrow> uint32 \<Rightarrow> uint \<Rightarrow> NFS4ACL \<times> error option" where
  "SetAccessMaskByWhoType acl accessMask whoType =
     (if whoType = NFS4_ACL_WHO_NAMED then (acl, Some NamedWhoNotAllowed)
      else if whoType < NFS4_ACL_WHO_NAMED \<or> whoType > NFS4_ACL_WHO_EVERYONE
      then (acl, Some UnsupportedWhoType)
      else (acl\<lparr>aceList :=
                  map (\<lambda>ace. if WhoType ace = whoType then setAccessMask ace accessMask else ace)
                    (aceList acl)\<rparr>, None))"

definition SetAccessMaskByWho :: "NFS4ACL \<Rightarrow> uint32 \<Rightarrow> string \<Rightarrow> NFS4ACL \<times> error option" where
  "SetAccessMaskByWho acl accessMask who =
     (acl\<lparr>aceList :=
             map (\<lambda>ace. if Who ace = who then setAccessMask ace accessMask else ace)
               (aceList acl)\<rparr>, None)"

section \<open>Auxiliary definitions for the codec lemmas\<close>

text \<open>The body of the loop of \<open>XAttrLoad\<close> after its two checks, as one function of the
  buffer and the cursor: it reads the four atoms and the who string and gives the new ACE
  and the cursor after it. \<open>XAttrLoad_loop_unfold\<close> below shows that the loop does this.\<close>

definition XAttrLoad_entry :: "byte list \<Rightarrow> int \<Rightarrow> (NFS4ACE \<times> int) option" where
  "XAttrLoad_entry value curAtom =
     do {
       b \<leftarrow> slice_from value curAtom;
       aceType \<leftarrow> Uint32 b;
       b \<leftarrow> slice_from value (curAtom + 4);
       aceFlag \<leftarrow> Uint32 b;
       b \<leftarrow> slice_from value (curAtom + 8);
       aceMask \<leftarrow> Uint32 b;
       b \<leftarrow> slice_from value (curAtom + 12);
       w \<leftarrow> Uint32 b;
       b \<leftarrow> slice_range value (curAtom + 16) (uint w + (curAtom + 16));
       Some (NewNFS4ACE aceType aceFlag aceMask (string_of_bytes b),
             curAtom + 16 + AceWhoStringAtomLength (uint w))
     }"

text \<open>The wire image that the encoder is shown to produce: an atom is four bytes, most
  significant first.\<close>

definition be32 :: "uint32 \<Rightarrow> byte list" where
  "be32 v = [ucast (drop_bit 24 v), ucast (drop_bit 16 v), ucast (drop_bit 8 v), ucast v]"

text \<open>The padding rule in the words of the specification: a byte length rounded up to
  the next multiple of 4, and unchanged when it is a multiple of 4 already.\<close>

definition padded_length :: "nat \<Rightarrow> nat" where
  "padded_length n = (n + 3) div 4 * 4"

text \<open>The number of padding bytes after a who string.\<close>

definition pad_length :: "string \<Rightarrow> nat" where
  "pad_length who = padded_length (length who) - length who"

text \<open>The bytes of one entry: four atoms, the who string, zero padding.\<close>

definition pack_ace :: "NFS4ACE \<Rightarrow> byte list" where
  "pack_ace ace =
     be32 (AceType ace) @ be32 (Flags ace) @ be32 (AccessMask ace) @
     be32 (word_of_int (int (length (Who ace)))) @
     bytes_of_string (Who ace) @ replicate (pad_length (Who ace)) 0"

text \<open>The bytes of an ACL: the count atom and the entries in order.\<close>

definition wire_image :: "NFS4ACL \<Rightarrow> byte list" where
  "wire_image acl =
     be32 (word_of_int (int (length (aceList acl)))) @ concat (map pack_ace (aceList acl))"

text \<open>An ACE with its who type derived again from its who string, as \<open>NewNFS4ACE\<close> does.\<close>

definition rederive :: "NFS4ACE \<Rightarrow> NFS4ACE" where
  "rederive ace = NewNFS4ACE (AceType ace) (Flags ace) (AccessMask ace) (Who ace)"

text \<open>What holds of every ACE that the decoder builds: its who type is the one derived
  from its who string, and the length of the who string fits in an atom.\<close>

definition decoded_ace :: "NFS4ACE \<Rightarrow> bool" where
  "decoded_ace ace \<longleftrightarrow> WhoType ace = AceGetWhoType (Who ace) \<and> length (Who ace) < 2 ^ 32"

text \<open>The frame of a mutation, for a selection of entries and an operation on masks:
  the directory flag is kept, the two entry lists have the same length, and position by
  position every field of the entry is kept except the access mask, which is the
  operation's result on a selected entry and is kept on every other entry.\<close>

definition changes_masks_only ::
  "(NFS4ACE \<Rightarrow> bool) \<Rightarrow> (uint32 \<Rightarrow> uint32) \<Rightarrow> NFS4ACL \<Rightarrow> NFS4ACL \<Rightarrow> bool" where
  "changes_masks_only selected f acl acl' \<longleftrightarrow>
     isDirectory acl' = isDirectory acl \<and>
     list_all2
       (\<lambda>ace ace'.
          AceType ace' = AceType ace \<and> WhoType ace' = WhoType ace \<and> Who ace' = Who ace \<and>
          Flags ace' = Flags ace \<and>
          AccessMask ace' = (if selected ace then f (AccessMask ace) else AccessMask ace))
       (aceList acl) (aceList acl')"

subsection \<open>The wire layout in the words of the specification\<close>

text \<open>The definitions of this subsection do not come from the code. They read a buffer as
  the specification lays it out: the count atom at offset 0, then for each entry four
  atoms (type, flags, access mask, who length), the bytes of the who string and padding
  up to the next multiple of 4. They use natural-number offsets, and neither the decoder
  nor the encoder occurs in them. The codec is compared with them below.\<close>

text \<open>The atom at byte offset \<open>i\<close> of a buffer, most significant byte first (0 when fewer
  than four bytes are left there).\<close>

definition atom_at :: "byte list \<Rightarrow> nat \<Rightarrow> uint32" where
  "atom_at b i = (case Uint32 (drop i b) of Some w \<Rightarrow> w | None \<Rightarrow> 0)"

text \<open>The who length declared by the entry that starts at offset \<open>cur\<close>: its fourth atom.\<close>

definition wire_who_length :: "byte list \<Rightarrow> nat \<Rightarrow> nat" where
  "wire_who_length b cur = unat (atom_at b (cur + 12))"

text \<open>The entry that starts at offset \<open>cur\<close>: its type, flags and access mask are the first
  three atoms, its who string is the declared number of bytes after the fourth atom, and
  its who type is derived from the who string.\<close>

definition wire_ace :: "byte list \<Rightarrow> nat \<Rightarrow> NFS4ACE" where
  "wire_ace b cur =
     (let who = string_of_bytes (take (wire_who_length b cur) (drop (cur + 16) b))
      in \<lparr>AceType = atom_at b cur, WhoType = AceGetWhoType who, Who = who,
          Flags = atom_at b (cur + 4), AccessMask = atom_at b (cur + 8)\<rparr>)"

text \<open>The offset of the entry after the one at \<open>cur\<close>: four atoms and the padded who
  length further.\<close>

definition wire_next :: "byte list \<Rightarrow> nat \<Rightarrow> nat" where
  "wire_next b cur = cur + 16 + padded_length (wire_who_length b cur)"

text \<open>The first \<open>k\<close> entries read from offset \<open>cur\<close> on, in buffer order, and the offset
  reached after them.\<close>

fun wire_entries :: "byte list \<Rightarrow> nat \<Rightarrow> nat \<Rightarrow> NFS4ACE list" where
  "wire_entries b 0 cur = []"
| "wire_entries b (Suc k) cur = wire_ace b cur # wire_entries b k (wire_next b cur)"

fun wire_offset :: "byte list \<Rightarrow> nat \<Rightarrow> nat \<Rightarrow> nat" where
  "wire_offset b 0 cur = cur"
| "wire_offset b (Suc k) cur = wire_offset b k (wire_next b cur)"

text \<open>\<open>k\<close> entries from offset \<open>cur\<close> on fill the buffer exactly and are zero padded: each
  entry with its padding lies inside the buffer, every byte between the end of its who
  string and the next multiple of 4 is zero, and the buffer ends with the padding of the
  last entry.\<close>

fun zero_padded_entries :: "byte list \<Rightarrow> nat \<Rightarrow> nat \<Rightarrow> bool" where
  "zero_padded_entries b 0 cur = (cur = length b)"
| "zero_padded_entries b (Suc k) cur =
     (let stop = cur + 16 + wire_who_length b cur; next = wire_next b cur
      in next \<le> length b \<and>
         take (next - stop) (drop stop b) = replicate (next - stop) 0 \<and>
         zero_padded_entries b k next)"

text \<open>A buffer has the canonical layout when it holds a count atom and, after it, as
  many zero-padded entries as the count atom says, and nothing else.\<close>

definition canonical_layout :: "byte list \<Rightarrow> bool" where
  "canonical_layout b \<longleftrightarrow> 4 \<le> length b \<and> zero_padded_entries b (unat (atom_at b 0)) 4"

section \<open>Lemmas about the codec\<close>

lemma XAttrLoad_loop_unfold:
  "XAttrLoad_loop v maxAtom numAces curAce curAtom newACL =
     (if curAce < numAces then
        if maxAtom \<le> curAtom + 16 then Some (newACL, Some BufferOverflow)
        else (case XAttrLoad_entry v curAtom of
                None \<Rightarrow> None
              | Some (ace, cur') \<Rightarrow>
                  XAttrLoad_loop v maxAtom numAces (curAce + 1) cur'
                    (newACL\<lparr>aceList := aceList newACL @ [ace]\<rparr>))
      else Some (newACL, None))"
  by (subst XAttrLoad_loop.simps)
     (auto simp add: XAttrLoad_entry_def ATOM_SIZE_def Let_def add.assoc
       split: Option.bind_split)

lemma XAttrLoad_loop_induct [consumes 0, case_names step]:
  assumes step: "\<And>curAce curAtom newACL.
     (\<And>ace cur'. curAce < numAces \<Longrightarrow> curAtom + 16 < maxAtom \<Longrightarrow>
         XAttrLoad_entry v curAtom = Some (ace, cur') \<Longrightarrow>
         P (curAce + 1) cur' (newACL\<lparr>aceList := aceList newACL @ [ace]\<rparr>))
     \<Longrightarrow> P curAce curAtom newACL"
  shows "P (curAce :: int) (curAtom :: int) (newACL :: NFS4ACL)"
proof (induction "nat (numAces - curAce)" arbitrary: curAce curAtom newACL rule: less_induct)
  case less
  show ?case
    by (rule step, rule less) simp
qed

lemma XAttrLoad_entry_derived:
  "XAttrLoad_entry v curAtom = Some (ace, cur') \<Longrightarrow> decoded_ace ace"
proof -
  assume "XAttrLoad_entry v curAtom = Some (ace, cur')"
  then have "\<exists>t f m (w :: uint32) b.
      slice_range v (curAtom + 16) (uint w + (curAtom + 16)) = Some b \<and>
      ace = NewNFS4ACE t f m (string_of_bytes b)"
    by (auto simp add: XAttrLoad_entry_def split: Option.bind_splits) blast
  then obtain t f m and w :: uint32 and b where
    b: "slice_range v (curAtom + 16) (uint w + (curAtom + 16)) = Some b"
    and "ace = NewNFS4ACE t f m (string_of_bytes b)"
    by blast
  then have ace: "Who ace = string_of_bytes b" "WhoType ace = AceGetWhoType (Who ace)"
    by (simp_all add: NewNFS4ACE_def)
  from b have "length b \<le> unat w"
    by (auto simp add: slice_range_def split: if_splits)
  moreover have "unat w < 2 ^ 32" using unsigned_less [of w, where 'a = nat] by simp
  ultimately have "length b < 2 ^ 32" by linarith
  with ace show ?thesis by (simp add: decoded_ace_def string_of_bytes_def)
qed

lemma XAttrLoad_loop_result:
  "XAttrLoad_loop v maxAtom numAces curAce curAtom newACL = Some (acl, err) \<Longrightarrow>
   isDirectory acl = isDirectory newACL \<and>
   (\<exists>aces. aceList acl = aceList newACL @ aces \<and>
      (\<forall>ace \<in> set aces. decoded_ace ace) \<and>
      (case err of
         None \<Rightarrow> int (length aces) = max 0 (numAces - curAce)
       | Some e \<Rightarrow> e = BufferOverflow \<and> int (length aces) < numAces - curAce))"
proof (induction curAce curAtom newACL rule: XAttrLoad_loop_induct [where numAces = numAces and maxAtom = maxAtom and v = v])
  case (step curAce curAtom newACL)
  show ?case
  proof (cases "curAce < numAces \<and> curAtom + 16 < maxAtom")
    case False
    with step.prems show ?thesis
      by (subst (asm) XAttrLoad_loop_unfold) (auto split: if_splits)
  next
    case True
    with step.prems obtain ace cur' where
      e: "XAttrLoad_entry v curAtom = Some (ace, cur')"
      and r: "XAttrLoad_loop v maxAtom numAces (curAce + 1) cur'
               (newACL\<lparr>aceList := aceList newACL @ [ace]\<rparr>) = Some (acl, err)"
      by (subst (asm) XAttrLoad_loop_unfold) (auto split: option.splits)
    from True e r have IH: "isDirectory acl = isDirectory (newACL\<lparr>aceList := aceList newACL @ [ace]\<rparr>) \<and>
      (\<exists>aces. aceList acl = aceList (newACL\<lparr>aceList := aceList newACL @ [ace]\<rparr>) @ aces \<and>
      (\<forall>ace \<in> set aces. decoded_ace ace) \<and>
      (case err of
         None \<Rightarrow> int (length aces) = max 0 (numAces - (curAce + 1))
       | Some e \<Rightarrow> e = BufferOverflow \<and> int (length aces) < numAces - (curAce + 1)))"
      by (intro step.IH) auto
    then obtain aces where a: "aceList acl = aceList newACL @ ace # aces"
      "\<forall>ace \<in> set aces. decoded_ace ace"
      "case err of
         None \<Rightarrow> int (length aces) = max 0 (numAces - (curAce + 1))
       | Some e \<Rightarrow> e = BufferOverflow \<and> int (length aces) < numAces - (curAce + 1)"
      by auto
    from IH have "isDirectory acl = isDirectory newACL" by simp
    moreover have "aceList acl = aceList newACL @ (ace # aces) \<and>
      (\<forall>ace \<in> set (ace # aces). decoded_ace ace) \<and>
      (case err of
         None \<Rightarrow> int (length (ace # aces)) = max 0 (numAces - curAce)
       | Some e \<Rightarrow> e = BufferOverflow \<and> int (length (ace # aces)) < numAces - curAce)"
      using a True XAttrLoad_entry_derived [OF e] by (auto split: option.splits)
    ultimately show ?thesis by blast
  qed
qed

lemma wrap_int_id:
  "- 9223372036854775808 \<le> x \<Longrightarrow> x < 9223372036854775808 \<Longrightarrow> wrap_int x = x"
  unfolding wrap_int_def by (simp add: mod_pos_pos_trivial)

lemma AceWhoStringAtomLength_in_range:
  assumes "0 \<le> n" "n \<le> 9223372036854775804"
  shows "AceWhoStringAtomLength n = (n + 3) div 4 * 4"
proof -
  have d: "n sdiv 4 = n div 4"
    using assms(1) by (simp add: signed_divide_int_def sgn_if)
  have b: "0 \<le> n div 4 * 4" "n div 4 * 4 \<le> n"
    using assms(1) by presburger+
  have w1: "wrap_int (n div 4 * 4) = n div 4 * 4"
    by (rule wrap_int_id) (use b assms in linarith)+
  show ?thesis
  proof (cases "n mod 4 = 0")
    case True
    then show ?thesis
      unfolding AceWhoStringAtomLength_def ATOM_SIZE_def Let_def d w1 by presburger
  next
    case False
    then have "n div 4 * 4 + 4 \<le> n + 3" by presburger
    with b assms have w2: "wrap_int (n div 4 * 4 + 4) = n div 4 * 4 + 4"
      by (intro wrap_int_id) linarith+
    from False show ?thesis
      unfolding AceWhoStringAtomLength_def ATOM_SIZE_def Let_def d w1 w2 by presburger
  qed
qed

lemma AceWhoStringAtomLength_int:
  assumes "n < 2 ^ 32"
  shows "AceWhoStringAtomLength (int n) = int (padded_length n)"
proof -
  have "int n \<le> 9223372036854775804" using assms by simp
  then have "AceWhoStringAtomLength (int n) = (int n + 3) div 4 * 4"
    by (intro AceWhoStringAtomLength_in_range) simp_all
  also have "\<dots> = int ((n + 3) div 4 * 4)"
    by (simp add: zdiv_int)
  finally show ?thesis by (simp add: padded_length_def)
qed

lemma pad_length_eq: "pad_length who = (length who + 3) div 4 * 4 - length who"
  by (simp add: pad_length_def padded_length_def)

lemma length_pad: "length who + pad_length who = (length who + 3) div 4 * 4"
  unfolding pad_length_eq by presburger

lemma length_be32 [simp]: "length (be32 v) = 4"
  by (simp add: be32_def)

lemma length_pack_ace:
  "length (pack_ace ace) = 16 + (length (Who ace) + 3) div 4 * 4"
  using length_pad [of "Who ace"] by (simp add: pack_ace_def bytes_of_string_def)

lemma Uint32_be32 [simp]: "Uint32 (be32 v @ rest) = Some v"
proof -
  let ?w = "(ucast (ucast v :: byte) :: uint32)
        OR push_bit 8 (ucast (ucast (drop_bit 8 v) :: byte) :: uint32)
        OR push_bit 16 (ucast (ucast (drop_bit 16 v) :: byte) :: uint32)
        OR push_bit 24 (ucast (ucast (drop_bit 24 v) :: byte) :: uint32)"
  have "?w = v"
  proof (rule bit_word_eqI)
    fix n assume "n < LENGTH(32)"
    then have n: "n < 32" by simp
    consider "n < 8" | "8 \<le> n" "n < 16" | "16 \<le> n" "n < 24" | "24 \<le> n" "n < 32"
      using n by linarith
    then show "bit ?w n = bit v n"
      by cases (auto simp add: bit_simps)
  qed
  then show ?thesis by (simp add: Uint32_def be32_def)
qed

lemma PutUint32_be32: "4 \<le> length b \<Longrightarrow> PutUint32 b v = Some (be32 v @ drop 4 b)"
proof -
  assume "4 \<le> length b"
  then obtain b0 b1 b2 b3 r where "b = b0 # b1 # b2 # b3 # r"
    by (cases b; simp; cases "tl b"; simp; cases "tl (tl b)"; simp; cases "tl (tl (tl b))"; simp)
  then show ?thesis by (simp add: PutUint32_def be32_def)
qed

lemma slice_from_append: "lo = int (length pre) \<Longrightarrow> slice_from (pre @ t) lo = Some t"
  by (simp add: slice_from_def)

lemma PutUint32_at_zeros:
  "lo = int (length pre) \<Longrightarrow> 4 \<le> m \<Longrightarrow>
   PutUint32_at (pre @ replicate m 0) lo v = Some ((pre @ be32 v) @ replicate (m - 4) 0)"
  by (simp add: PutUint32_at_def slice_from_append PutUint32_be32 write_back_def)

lemma copy_at_zeros:
  "lo = int (length pre) \<Longrightarrow>
   copy_at (pre @ replicate (length str + n) 0) lo str =
     Some ((pre @ bytes_of_string str) @ replicate n 0)"
  by (simp add: copy_at_def slice_from_append write_back_def copy_def bytes_of_string_def
      min_def)

lemma XAttrSize_range_eq:
  "\<forall>ace \<in> set aces. length (Who ace) < 2 ^ 32 \<Longrightarrow>
   XAttrSize_range aces sz = sz + int (length (concat (map pack_ace aces)))"
  by (induction aces arbitrary: sz)
     (simp_all add: length_pack_ace AceWhoStringAtomLength_int padded_length_def ATOM_SIZE_def)

lemma PackXAttr_range_zeros:
  "\<forall>ace \<in> set aces. length (Who ace) < 2 ^ 32 \<Longrightarrow> currAtom = int (length pre) \<Longrightarrow>
   PackXAttr_range aces (pre @ replicate (length (concat (map pack_ace aces))) 0) currAtom =
     Some (pre @ concat (map pack_ace aces))"
proof (induction aces arbitrary: pre currAtom)
  case Nil
  then show ?case by simp
next
  case (Cons ace rest)
  define R where "R = length (concat (map pack_ace rest))"
  define p where "p = pad_length (Who ace)"
  define L where "L = length (Who ace)"
  define x0 where "x0 = pre @ replicate (16 + L + p + R) 0"
  define x1 where "x1 = (pre @ be32 (AceType ace)) @ replicate (12 + L + p + R) 0"
  define x2 where "x2 = ((pre @ be32 (AceType ace)) @ be32 (Flags ace))
                          @ replicate (8 + L + p + R) 0"
  define h3 where "h3 = ((pre @ be32 (AceType ace)) @ be32 (Flags ace)) @ be32 (AccessMask ace)"
  define x3 where "x3 = h3 @ replicate (4 + L + p + R) 0"
  define h4 where "h4 = h3 @ be32 (word_of_int (int (length (Who ace))))"
  define x4 where "x4 = h4 @ replicate (length (Who ace) + (p + R)) 0"
  define h5 where "h5 = (h4 @ bytes_of_string (Who ace)) @ replicate p 0"
  define x5 where "x5 = h5 @ replicate (length (concat (map pack_ace rest))) 0"
  have len: "length (concat (map pack_ace (ace # rest))) = 16 + L + p + R"
    using length_pad [of "Who ace"] by (simp add: length_pack_ace R_def p_def L_def)
  let ?c1 = "currAtom + ATOM_SIZE"
  let ?c2 = "?c1 + ATOM_SIZE"
  let ?c3 = "?c2 + ATOM_SIZE"
  let ?c4 = "?c3 + ATOM_SIZE"
  let ?c5 = "?c4 + AceWhoStringAtomLength (int (length (Who ace)))"
  have s1: "PutUint32_at x0 currAtom (AceType ace) = Some x1"
    unfolding x0_def x1_def
    using Cons.prems PutUint32_at_zeros [of currAtom pre "16 + L + p + R" "AceType ace"]
    by simp
  have s2: "PutUint32_at x1 ?c1 (Flags ace) = Some x2"
    unfolding x1_def x2_def
    using Cons.prems
      PutUint32_at_zeros [of ?c1 "pre @ be32 (AceType ace)" "12 + L + p + R" "Flags ace"]
    by (simp add: ATOM_SIZE_def)
  have s3: "PutUint32_at x2 ?c2 (AccessMask ace) = Some x3"
    unfolding x2_def x3_def h3_def
    using Cons.prems
      PutUint32_at_zeros [of ?c2 "(pre @ be32 (AceType ace)) @ be32 (Flags ace)"
        "8 + L + p + R" "AccessMask ace"]
    by (simp add: ATOM_SIZE_def)
  have s4: "PutUint32_at x3 ?c3 (word_of_int (int (length (Who ace)))) = Some x4"
    unfolding x3_def x4_def h4_def
    using Cons.prems
      PutUint32_at_zeros [of ?c3 h3 "4 + L + p + R" "word_of_int (int (length (Who ace)))"]
    by (simp add: h3_def L_def add.assoc ATOM_SIZE_def)
  have "copy_at x4 ?c4 (Who ace) =
          Some ((h4 @ bytes_of_string (Who ace)) @ replicate (p + R) 0)"
    unfolding x4_def
    using Cons.prems copy_at_zeros [of ?c4 h4 "Who ace" "p + R"]
    by (simp add: h4_def h3_def ATOM_SIZE_def)
  then have s5: "copy_at x4 ?c4 (Who ace) = Some x5"
    by (simp add: x5_def h5_def R_def replicate_add)
  have cur: "?c5 = int (length h5)"
    using Cons.prems length_pad [of "Who ace"]
    by (simp add: h5_def h4_def h3_def AceWhoStringAtomLength_int padded_length_def p_def
        bytes_of_string_def ATOM_SIZE_def)
  have s6: "PackXAttr_range rest x5 ?c5 = Some (h5 @ concat (map pack_ace rest))"
    unfolding x5_def
  proof (rule Cons.IH)
    show "\<forall>ace \<in> set rest. length (Who ace) < 2 ^ 32"
      using Cons.prems(1) by simp
    show "?c5 = int (length h5)"
      by (rule cur)
  qed
  have h5: "h5 = pre @ pack_ace ace"
    by (simp add: h5_def h4_def h3_def pack_ace_def p_def)
  have "PackXAttr_range (ace # rest) x0 currAtom = Some (h5 @ concat (map pack_ace rest))"
    by (simp only: PackXAttr_range.simps Let_def s1 s2 s3 s4 s5 s6 Option.bind.bind_lunit)
  then show ?case
    unfolding len x0_def [symmetric] by (simp add: h5)
qed

lemma PackXAttr_wire_image:
  assumes "\<forall>ace \<in> set (aceList acl). length (Who ace) < 2 ^ 32"
  shows "PackXAttr acl = Some (wire_image acl, None)"
proof -
  let ?n = "length (concat (map pack_ace (aceList acl)))"
  let ?c = "be32 (word_of_int (int (length (aceList acl))))"
  have "XAttrSize acl = int (4 + ?n)"
    using assms by (simp add: XAttrSize_def XAttrSize_range_eq ATOM_SIZE_def)
  then have mk: "make (XAttrSize acl) = Some (replicate (4 + ?n) 0)"
    unfolding make_def by (simp only: nat_int) simp
  have "PutUint32_at ([] @ replicate (4 + ?n) 0) 0 (word_of_int (int (length (aceList acl))))
        = Some (([] @ ?c) @ replicate (4 + ?n - 4) 0)"
    by (rule PutUint32_at_zeros) simp_all
  then have s0: "PutUint32_at (replicate (4 + ?n) 0) 0 (word_of_int (int (length (aceList acl))))
        = Some (?c @ replicate ?n 0)"
    by simp
  have s1: "PackXAttr_range (aceList acl) (?c @ replicate ?n 0) 4 =
        Some (?c @ concat (map pack_ace (aceList acl)))"
    using assms by (intro PackXAttr_range_zeros) simp_all
  show ?thesis
    unfolding PackXAttr_def Let_def mk
    using s0 s1 by (simp add: ATOM_SIZE_def wire_image_def)
qed

lemma char_to_byte_inverse [simp]: "byte_to_char (char_to_byte c) = c"
proof -
  have "unat (of_char c :: byte) = unat (of_nat (of_char c) :: byte)"
    by (simp only: of_nat_of_char)
  also have "\<dots> = take_bit 8 (of_char c :: nat)"
    by (simp add: unat_of_nat take_bit_eq_mod)
  finally show ?thesis
    by (simp add: byte_to_char_def char_to_byte_def char_of_take_bit_eq)
qed

lemma byte_to_char_inverse [simp]: "char_to_byte (byte_to_char b) = b"
proof -
  have lt: "unat b < 256" using unsigned_less [of b, where 'a = nat] by simp
  have "(of_char (char_of (unat b)) :: byte) = of_nat (of_char (char_of (unat b)))"
    by (simp only: of_nat_of_char)
  also have "\<dots> = of_nat (unat b mod 256)" by (simp only: of_char_of)
  also have "\<dots> = b" using lt by simp
  finally show ?thesis by (simp add: byte_to_char_def char_to_byte_def)
qed

lemma string_of_bytes_inverse [simp]: "string_of_bytes (bytes_of_string s) = s"
  by (simp add: string_of_bytes_def bytes_of_string_def comp_def)

lemma bytes_of_string_inverse [simp]: "bytes_of_string (string_of_bytes b) = b"
  by (simp add: string_of_bytes_def bytes_of_string_def comp_def)

lemma length_bytes_of_string [simp]: "length (bytes_of_string s) = length s"
  by (simp add: bytes_of_string_def)

lemma length_string_of_bytes [simp]: "length (string_of_bytes b) = length b"
  by (simp add: string_of_bytes_def)

lemma uint_who_length:
  "n < 2 ^ 32 \<Longrightarrow> uint (word_of_int (int n) :: uint32) = int n"
  by (simp add: unsigned_of_nat take_bit_nat_eq_self)

lemma XAttrLoad_entry_pack:
  assumes cur: "curAtom = int (length pre)" and len: "length (Who ace) < 2 ^ 32"
  shows "XAttrLoad_entry (pre @ pack_ace ace @ rest) curAtom =
           Some (rederive ace, int (length (pre @ pack_ace ace)))"
proof -
  let ?w = "word_of_int (int (length (Who ace))) :: uint32"
  let ?t1 = "be32 (Flags ace) @ be32 (AccessMask ace) @ be32 ?w @
     bytes_of_string (Who ace) @ replicate (pad_length (Who ace)) 0 @ rest"
  let ?t2 = "be32 (AccessMask ace) @ be32 ?w @
     bytes_of_string (Who ace) @ replicate (pad_length (Who ace)) 0 @ rest"
  let ?t3 = "be32 ?w @ bytes_of_string (Who ace) @ replicate (pad_length (Who ace)) 0 @ rest"
  let ?t4 = "bytes_of_string (Who ace) @ replicate (pad_length (Who ace)) 0 @ rest"
  let ?v = "pre @ pack_ace ace @ rest"
  have r0: "slice_from ?v curAtom = Some (be32 (AceType ace) @ ?t1)"
    using cur by (simp add: slice_from_def pack_ace_def)
  have r1: "slice_from ?v (curAtom + 4) = Some (be32 (Flags ace) @ ?t2)"
    using cur by (simp add: slice_from_def pack_ace_def nat_add_distrib)
  have r2: "slice_from ?v (curAtom + 8) = Some (be32 (AccessMask ace) @ ?t3)"
    using cur by (simp add: slice_from_def pack_ace_def nat_add_distrib)
  have r3: "slice_from ?v (curAtom + 12) = Some (be32 ?w @ ?t4)"
    using cur by (simp add: slice_from_def pack_ace_def nat_add_distrib)
  have w: "uint ?w = int (length (Who ace))"
    using len by (rule uint_who_length)
  have r4: "slice_range ?v (curAtom + 16) (uint ?w + (curAtom + 16)) = Some (bytes_of_string (Who ace))"
    unfolding w using cur by (simp add: slice_range_def pack_ace_def nat_add_distrib)
  have e: "curAtom + 16 + AceWhoStringAtomLength (uint ?w) = int (length (pre @ pack_ace ace))"
    unfolding w using cur len
    by (simp add: length_pack_ace AceWhoStringAtomLength_int padded_length_def)
  show ?thesis
    unfolding XAttrLoad_entry_def
    by (simp only: r0 r1 r2 r3 r4 e Uint32_be32 Option.bind.bind_lunit rederive_def
        string_of_bytes_inverse)
qed

lemma pack_ace_nonempty: "16 \<le> length (pack_ace ace)"
  by (simp add: length_pack_ace)

lemma length_pack_ace_16_iff: "length (pack_ace ace) = 16 \<longleftrightarrow> Who ace = []"
  unfolding length_pack_ace by (cases "Who ace") simp_all

lemma length_concat_pack_0_iff: "length (concat (map pack_ace aces)) = 0 \<longleftrightarrow> aces = []"
  using pack_ace_nonempty [of "hd aces"] by (cases aces) auto

lemma XAttrLoad_loop_wire:
  assumes "\<forall>ace \<in> set aces. length (Who ace) < 2 ^ 32"
    and "curAtom = int (length pre)"
    and "numAces - curAce = int (length aces)"
  shows "XAttrLoad_loop (pre @ concat (map pack_ace aces))
           (int (length (pre @ concat (map pack_ace aces)))) numAces curAce curAtom newACL =
         (if aces \<noteq> [] \<and> Who (last aces) = []
          then Some (newACL\<lparr>aceList := aceList newACL @ map rederive (butlast aces)\<rparr>,
                     Some BufferOverflow)
          else Some (newACL\<lparr>aceList := aceList newACL @ map rederive aces\<rparr>, None))"
  using assms
proof (induction aces arbitrary: pre curAce curAtom newACL)
  case Nil
  then show ?case by (subst XAttrLoad_loop_unfold) simp
next
  case (Cons ace rest)
  let ?v = "pre @ concat (map pack_ace (ace # rest))"
  have lt: "curAce < numAces" using Cons.prems(3) by simp
  show ?case
  proof (cases "Who ace = [] \<and> rest = []")
    case True
    then have "int (length ?v) \<le> curAtom + 16"
      using Cons.prems(2) by (simp add: length_pack_ace)
    with lt True show ?thesis by (subst XAttrLoad_loop_unfold) simp
  next
    case False
    have "16 < length (pack_ace ace) + length (concat (map pack_ace rest))"
      using False pack_ace_nonempty [of ace] length_pack_ace_16_iff [of ace]
        length_concat_pack_0_iff [of rest]
      by (cases "rest = []") auto
    then have gt: "\<not> int (length ?v) \<le> curAtom + 16"
      using Cons.prems(2) by simp
    have e: "XAttrLoad_entry ?v curAtom = Some (rederive ace, int (length (pre @ pack_ace ace)))"
      using XAttrLoad_entry_pack [of curAtom pre ace "concat (map pack_ace rest)"] Cons.prems
      by simp
    have IH: "XAttrLoad_loop ((pre @ pack_ace ace) @ concat (map pack_ace rest))
           (int (length ((pre @ pack_ace ace) @ concat (map pack_ace rest)))) numAces (curAce + 1)
           (int (length (pre @ pack_ace ace)))
           (newACL\<lparr>aceList := aceList newACL @ [rederive ace]\<rparr>) =
         (if rest \<noteq> [] \<and> Who (last rest) = []
          then Some (newACL\<lparr>aceList := aceList newACL @ [rederive ace]\<rparr>
                       \<lparr>aceList := aceList (newACL\<lparr>aceList := aceList newACL @ [rederive ace]\<rparr>)
                          @ map rederive (butlast rest)\<rparr>,
                     Some BufferOverflow)
          else Some (newACL\<lparr>aceList := aceList newACL @ [rederive ace]\<rparr>
                       \<lparr>aceList := aceList (newACL\<lparr>aceList := aceList newACL @ [rederive ace]\<rparr>)
                          @ map rederive rest\<rparr>, None))"
      using Cons.prems by (intro Cons.IH) auto
    have "XAttrLoad_loop ?v (int (length ?v)) numAces curAce curAtom newACL =
          XAttrLoad_loop ?v (int (length ?v)) numAces (curAce + 1)
            (int (length (pre @ pack_ace ace)))
            (newACL\<lparr>aceList := aceList newACL @ [rederive ace]\<rparr>)"
      using lt gt e by (subst XAttrLoad_loop_unfold) simp
    also have "\<dots> = (if rest \<noteq> [] \<and> Who (last rest) = []
          then Some (newACL\<lparr>aceList := aceList newACL @ rederive ace # map rederive (butlast rest)\<rparr>,
                     Some BufferOverflow)
          else Some (newACL\<lparr>aceList := aceList newACL @ rederive ace # map rederive rest\<rparr>, None))"
      using IH by simp
    finally show ?thesis using False by auto
  qed
qed

lemma XAttrLoad_wire_image:
  assumes "length (aceList acl) < 2 ^ 32"
    and "\<forall>ace \<in> set (aceList acl). length (Who ace) < 2 ^ 32"
  shows "XAttrLoad (wire_image acl) isDir =
         (if aceList acl \<noteq> [] \<and> Who (last (aceList acl)) = []
          then Some (\<lparr>isDirectory = isDir, aceList = map rederive (butlast (aceList acl))\<rparr>,
                     Some BufferOverflow)
          else Some (\<lparr>isDirectory = isDir, aceList = map rederive (aceList acl)\<rparr>, None))"
proof -
  let ?c = "be32 (word_of_int (int (length (aceList acl))))"
  let ?v = "?c @ concat (map pack_ace (aceList acl))"
  have n: "uint (word_of_int (int (length (aceList acl))) :: uint32) = int (length (aceList acl))"
    using assms(1) by (rule uint_who_length)
  have l: "XAttrLoad_loop ?v (int (length ?v)) (int (length (aceList acl))) 0 4
             \<lparr>isDirectory = isDir, aceList = []\<rparr> =
         (if aceList acl \<noteq> [] \<and> Who (last (aceList acl)) = []
          then Some (\<lparr>isDirectory = isDir, aceList = []\<rparr>
                      \<lparr>aceList := aceList \<lparr>isDirectory = isDir, aceList = []\<rparr> @
                         map rederive (butlast (aceList acl))\<rparr>,
                     Some BufferOverflow)
          else Some (\<lparr>isDirectory = isDir, aceList = []\<rparr>
                      \<lparr>aceList := aceList \<lparr>isDirectory = isDir, aceList = []\<rparr> @
                         map rederive (aceList acl)\<rparr>, None))"
    using assms(2) by (intro XAttrLoad_loop_wire) simp_all
  have s: "slice_from ?v 0 = Some ?v" by (simp add: slice_from_def)
  have "XAttrLoad ?v isDir =
        XAttrLoad_loop ?v (int (length ?v)) (int (length (aceList acl))) 0 4
             \<lparr>isDirectory = isDir, aceList = []\<rparr>"
    unfolding XAttrLoad_def Let_def s using n by (simp add: ATOM_SIZE_def)
  then show ?thesis unfolding wire_image_def l by simp
qed

section \<open>Lemmas about decoding, targets and frames\<close>

lemma XAttrLoad_result:
  assumes "XAttrLoad v isDir = Some (acl, err)"
  shows "isDirectory acl = isDir \<and> (\<forall>ace \<in> set (aceList acl). decoded_ace ace) \<and>
   (case err of
      None \<Rightarrow> (\<exists>n. Uint32 v = Some n \<and> int (length (aceList acl)) = uint n)
    | Some e \<Rightarrow> (e = InvalidInputBuffer \<and> length v < 4 \<and> aceList acl = []) \<or>
               (e = BufferOverflow \<and> 4 \<le> length v \<and>
                (\<exists>n. Uint32 v = Some n \<and> int (length (aceList acl)) < uint n)))"
proof (cases "length v < 4")
  case True
  with assms show ?thesis
    by (auto simp add: XAttrLoad_def ATOM_SIZE_def)
next
  case False
  have s: "slice_from v 0 = Some v" by (simp add: slice_from_def)
  from False assms obtain n where n: "Uint32 v = Some n"
    and l: "XAttrLoad_loop v (int (length v)) (uint n) 0 4 \<lparr>isDirectory = isDir, aceList = []\<rparr>
            = Some (acl, err)"
    by (auto simp add: XAttrLoad_def ATOM_SIZE_def s split: Option.bind_splits)
  have u: "0 \<le> uint n" by simp
  from XAttrLoad_loop_result [OF l] u n False show ?thesis
    by (auto split: option.splits)
qed

lemma word_not_small:
  fixes w :: uint
  assumes "w \<noteq> 0" "w \<noteq> 1" "w \<noteq> 2" "w \<noteq> 3"
  shows "3 < w"
proof (rule ccontr)
  assume "\<not> 3 < w"
  then have "unat w \<le> 3" by (simp add: word_less_nat_alt)
  then consider "unat w = 0" | "unat w = 1" | "unat w = 2" | "unat w = 3" by linarith
  then have "of_nat (unat w) \<in> {0, 1, 2, 3 :: uint}"
    by cases simp_all
  with assms show False by simp
qed

lemma list_all2_same_eq:
  "list_all2 (\<lambda>ace ace'. AceType ace' = AceType ace \<and> WhoType ace' = WhoType ace \<and>
      Who ace' = Who ace \<and> Flags ace' = Flags ace \<and> AccessMask ace' = AccessMask ace) xs ys
   \<Longrightarrow> ys = (xs :: NFS4ACE list)"
  by (induction xs ys rule: list_all2_induct) auto

lemma changes_masks_only_none_selected:
  assumes "changes_masks_only selected f acl acl'" "\<forall>ace \<in> set (aceList acl). \<not> selected ace"
  shows "acl' = acl"
proof -
  from assms have "list_all2 (\<lambda>ace ace'. AceType ace' = AceType ace \<and> WhoType ace' = WhoType ace \<and>
      Who ace' = Who ace \<and> Flags ace' = Flags ace \<and> AccessMask ace' = AccessMask ace)
      (aceList acl) (aceList acl')"
    unfolding changes_masks_only_def
    by (auto elim!: list.rel_mono_strong)
  then have "aceList acl' = aceList acl" by (rule list_all2_same_eq)
  moreover from assms(1) have "isDirectory acl' = isDirectory acl"
    by (simp add: changes_masks_only_def)
  ultimately show ?thesis by simp
qed

lemma changes_masks_only_map:
  "changes_masks_only selected f acl
     (acl\<lparr>aceList := map (\<lambda>ace. if selected ace then ace\<lparr>AccessMask := f (AccessMask ace)\<rparr> else ace)
        (aceList acl)\<rparr>)"
  by (simp add: changes_masks_only_def list_all2_map2 list_all2_same)

lemma pack_ace_rederive: "pack_ace (rederive ace) = pack_ace ace"
  by (simp add: pack_ace_def rederive_def NewNFS4ACE_def)

lemma wire_image_rederive:
  "wire_image \<lparr>isDirectory = d, aceList = map rederive (aceList a)\<rparr> = wire_image a"
  by (simp add: wire_image_def comp_def pack_ace_rederive)

lemma not_target_who_type:
  assumes "whoType \<notin> {NFS4_ACL_WHO_OWNER, NFS4_ACL_WHO_GROUP, NFS4_ACL_WHO_EVERYONE}"
  shows "whoType = NFS4_ACL_WHO_NAMED \<or>
         whoType < NFS4_ACL_WHO_NAMED \<or> whoType > NFS4_ACL_WHO_EVERYONE"
  using assms word_not_small [of whoType]
  by (auto simp add: NFS4_ACL_WHO_NAMED_def NFS4_ACL_WHO_OWNER_def NFS4_ACL_WHO_GROUP_def
      NFS4_ACL_WHO_EVERYONE_def)

lemma target_who_type:
  assumes "whoType \<in> {NFS4_ACL_WHO_OWNER, NFS4_ACL_WHO_GROUP, NFS4_ACL_WHO_EVERYONE}"
  shows "whoType \<noteq> NFS4_ACL_WHO_NAMED \<and>
         \<not> (whoType < NFS4_ACL_WHO_NAMED \<or> whoType > NFS4_ACL_WHO_EVERYONE)"
  using assms
  by (auto simp add: NFS4_ACL_WHO_NAMED_def NFS4_ACL_WHO_OWNER_def NFS4_ACL_WHO_GROUP_def
      NFS4_ACL_WHO_EVERYONE_def)

lemma changes_masks_only_apply:
  "changes_masks_only selected (\<lambda>x. x OR m) acl
     (acl\<lparr>aceList := map (\<lambda>ace. if selected ace then applyAccessMask ace m else ace)
        (aceList acl)\<rparr>)"
  unfolding applyAccessMask_def by (rule changes_masks_only_map)

lemma changes_masks_only_remove:
  "changes_masks_only selected (\<lambda>x. x AND NOT m) acl
     (acl\<lparr>aceList := map (\<lambda>ace. if selected ace then removeAccessMask ace m else ace)
        (aceList acl)\<rparr>)"
  unfolding removeAccessMask_def by (rule changes_masks_only_map)

lemma changes_masks_only_set:
  "changes_masks_only selected (\<lambda>x. m) acl
     (acl\<lparr>aceList := map (\<lambda>ace. if selected ace then setAccessMask ace m else ace)
        (aceList acl)\<rparr>)"
  unfolding setAccessMask_def by (rule changes_masks_only_map)

section \<open>Lemmas about the wire layout\<close>

text \<open>The decoder reads the entries of the wire layout, and the encoder writes the
  canonical layout and nothing else.\<close>

lemma atom_at_be32: "i = length pre \<Longrightarrow> atom_at (pre @ be32 w @ rest) i = w"
  by (simp add: atom_at_def)

lemma be32_Uint32:
  "be32 (ucast x3 OR push_bit 8 (ucast x2) OR push_bit 16 (ucast x1) OR push_bit 24 (ucast x0))
     = [x0, x1, x2, x3 :: byte]"
proof -
  let ?w = "(ucast x3 :: uint32) OR push_bit 8 (ucast x2) OR push_bit 16 (ucast x1)
              OR push_bit 24 (ucast x0)"
  have b0: "(ucast (drop_bit 24 ?w) :: byte) = x0"
    by (rule bit_word_eqI) (auto simp add: bit_simps dest: bit_imp_le_length)
  have b1: "(ucast (drop_bit 16 ?w) :: byte) = x1"
    by (rule bit_word_eqI) (auto simp add: bit_simps dest: bit_imp_le_length)
  have b2: "(ucast (drop_bit 8 ?w) :: byte) = x2"
    by (rule bit_word_eqI) (auto simp add: bit_simps dest: bit_imp_le_length)
  have b3: "(ucast ?w :: byte) = x3"
    by (rule bit_word_eqI) (auto simp add: bit_simps dest: bit_imp_le_length)
  show ?thesis
    unfolding be32_def b0 b1 b2 b3 ..
qed

lemma be32_atom_at:
  assumes "i + 4 \<le> length b"
  shows "drop i b = be32 (atom_at b i) @ drop (i + 4) b"
proof -
  from assms have "4 \<le> length (drop i b)" by simp
  then obtain x0 x1 x2 x3 r where d: "drop i b = x0 # x1 # x2 # x3 # r"
    by (cases "drop i b"; simp; cases "tl (drop i b)"; simp; cases "tl (tl (drop i b))"; simp;
        cases "tl (tl (tl (drop i b)))"; simp)
  have "drop (i + 4) b = drop 4 (drop i b)" by (simp add: add.commute)
  then have r: "drop (i + 4) b = r" by (simp add: d)
  have "atom_at b i = ucast x3 OR push_bit 8 (ucast x2) OR push_bit 16 (ucast x1)
          OR push_bit 24 (ucast x0)"
    by (simp add: atom_at_def d Uint32_def)
  then show ?thesis by (simp add: be32_Uint32 d r)
qed


lemma Uint32_drop_atom_at: "Uint32 (drop i v) = Some t \<Longrightarrow> atom_at v i = t"
  by (simp add: atom_at_def)


lemma wire_entries_snoc:
  "wire_entries b (Suc k) cur = wire_entries b k cur @ [wire_ace b (wire_offset b k cur)]"
  by (induction k arbitrary: cur) simp_all

lemma wire_offset_Suc: "wire_offset b (Suc k) cur = wire_next b (wire_offset b k cur)"
  by (induction k arbitrary: cur) simp_all



lemma length_wire_entries [simp]: "length (wire_entries b k cur) = k"
  by (induction k arbitrary: cur) simp_all

lemma padded_length_ge: "n \<le> padded_length n"
  unfolding padded_length_def by presburger

lemma wire_who_length_pack:
  assumes "length (Who ace) < 2 ^ 32"
  shows "wire_who_length (pre @ pack_ace ace @ rest) (length pre) = length (Who ace)"
proof -
  have "atom_at (pre @ pack_ace ace @ rest) (length pre + 12) =
          word_of_int (int (length (Who ace)))"
    by (simp add: atom_at_def pack_ace_def)
  then show ?thesis
    using assms by (simp add: wire_who_length_def unsigned_of_nat take_bit_nat_eq_self)
qed

lemma zero_padded_wire:
  assumes "\<forall>ace \<in> set aces. length (Who ace) < 2 ^ 32"
  shows "zero_padded_entries (pre @ concat (map pack_ace aces)) (length aces) (length pre)"
  using assms
proof (induction aces arbitrary: pre)
  case Nil
  then show ?case by simp
next
  case (Cons ace rest)
  let ?R = "concat (map pack_ace rest)"
  let ?b = "pre @ pack_ace ace @ ?R"
  let ?cur = "length pre"
  have L: "wire_who_length ?b ?cur = length (Who ace)"
    using Cons.prems by (intro wire_who_length_pack) simp
  have nxt: "wire_next ?b ?cur = length (pre @ pack_ace ace)"
    unfolding wire_next_def L by (simp add: length_pack_ace padded_length_def)
  have pad: "length (pre @ pack_ace ace) - (?cur + 16 + length (Who ace)) = pad_length (Who ace)"
    using length_pad [of "Who ace"] by (simp add: length_pack_ace)
  have "drop (?cur + 16 + length (Who ace)) ?b = replicate (pad_length (Who ace)) 0 @ ?R"
    by (simp add: pack_ace_def)
  then have z: "take (pad_length (Who ace)) (drop (?cur + 16 + length (Who ace)) ?b) =
                replicate (pad_length (Who ace)) 0"
    by simp
  have IH: "zero_padded_entries ((pre @ pack_ace ace) @ ?R) (length rest)
              (length (pre @ pack_ace ace))"
    using Cons.prems by (intro Cons.IH) simp
  have "zero_padded_entries ?b (Suc (length rest)) ?cur"
    unfolding zero_padded_entries.simps Let_def L nxt pad
    using IH z by (simp add: length_pack_ace)
  then show ?case by simp
qed

lemma canonical_wire_image:
  assumes "length (aceList a) < 2 ^ 32" "\<forall>ace \<in> set (aceList a). length (Who ace) < 2 ^ 32"
  shows "canonical_layout (wire_image a)"
proof -
  let ?c = "word_of_int (int (length (aceList a))) :: uint32"
  have c: "atom_at (wire_image a) 0 = ?c"
    using atom_at_be32 [of 0 "[]" ?c "concat (map pack_ace (aceList a))"]
    by (simp add: wire_image_def)
  have u: "unat ?c = length (aceList a)"
    using assms(1) by (simp add: unsigned_of_nat take_bit_nat_eq_self)
  have "zero_padded_entries (be32 ?c @ concat (map pack_ace (aceList a)))
          (length (aceList a)) 4"
    using zero_padded_wire [OF assms(2), of "be32 ?c"] by simp
  then show ?thesis
    unfolding canonical_layout_def c u by (simp add: wire_image_def)
qed

lemma zero_padded_entries_pack:
  assumes "zero_padded_entries b k cur"
  shows "drop cur b = concat (map pack_ace (wire_entries b k cur)) \<and>
         (\<forall>ace \<in> set (wire_entries b k cur). length (Who ace) < 2 ^ 32)"
  using assms
proof (induction k arbitrary: cur)
  case 0
  then show ?case by simp
next
  case (Suc k)
  let ?L = "wire_who_length b cur"
  let ?stop = "cur + 16 + ?L"
  let ?next = "wire_next b cur"
  define who where "who = take ?L (drop (cur + 16) b)"
  define rest where "rest = drop ?next b"
  from Suc.prems have n: "?next \<le> length b"
    and z: "take (?next - ?stop) (drop ?stop b) = replicate (?next - ?stop) 0"
    and r: "zero_padded_entries b k ?next"
    by (simp_all add: Let_def)
  have sn: "?stop \<le> ?next"
    using padded_length_ge [of ?L] by (simp add: wire_next_def)
  have lw: "length who = ?L"
    unfolding who_def using sn n by simp
  have L32: "?L < 2 ^ 32"
    using unsigned_less [of "atom_at b (cur + 12)", where 'a = nat]
    by (simp add: wire_who_length_def)
  have a: "wire_ace b cur =
      \<lparr>AceType = atom_at b cur, WhoType = AceGetWhoType (string_of_bytes who),
       Who = string_of_bytes who, Flags = atom_at b (cur + 4),
       AccessMask = atom_at b (cur + 8)\<rparr>"
    by (simp add: wire_ace_def Let_def who_def)
  have w: "(word_of_int (int ?L) :: uint32) = atom_at b (cur + 12)"
    by (simp add: wire_who_length_def)
  have ls: "length (string_of_bytes who) = ?L"
    using lw by (simp only: length_string_of_bytes)
  have pl: "pad_length (string_of_bytes who) = ?next - ?stop"
    unfolding pad_length_def ls wire_next_def by simp
  have p: "pack_ace (wire_ace b cur) =
      be32 (atom_at b cur) @ be32 (atom_at b (cur + 4)) @ be32 (atom_at b (cur + 8)) @
      be32 (atom_at b (cur + 12)) @ who @ replicate (?next - ?stop) 0"
    unfolding a pack_ace_def NFS4ACE.select_convs ls pl w bytes_of_string_inverse ..
  have d0: "drop cur b = be32 (atom_at b cur) @ drop (cur + 4) b"
    using sn n by (intro be32_atom_at) simp
  have d1: "drop (cur + 4) b = be32 (atom_at b (cur + 4)) @ drop (cur + 8) b"
    using sn n be32_atom_at [of "cur + 4" b] by (simp add: add.assoc)
  have d2: "drop (cur + 8) b = be32 (atom_at b (cur + 8)) @ drop (cur + 12) b"
    using sn n be32_atom_at [of "cur + 8" b] by (simp add: add.assoc)
  have d3: "drop (cur + 12) b = be32 (atom_at b (cur + 12)) @ drop (cur + 16) b"
    using sn n be32_atom_at [of "cur + 12" b] by (simp add: add.assoc)
  have d4: "drop (cur + 16) b = who @ drop ?stop b"
    unfolding who_def
    using append_take_drop_id [of ?L "drop (cur + 16) b"] by (simp add: add.commute)
  have d5: "drop ?stop b = replicate (?next - ?stop) 0 @ rest"
  proof -
    have "drop ?stop b = take (?next - ?stop) (drop ?stop b) @ drop (?next - ?stop) (drop ?stop b)"
      by (rule append_take_drop_id [symmetric])
    also have "drop (?next - ?stop) (drop ?stop b) = rest"
      unfolding rest_def using sn by simp
    finally show ?thesis by (simp only: z)
  qed
  have "drop cur b = pack_ace (wire_ace b cur) @ rest"
    unfolding p by (simp only: d0 d1 d2 d3 d4 d5 append_assoc)
  moreover from Suc.IH [OF r] have
    "rest = concat (map pack_ace (wire_entries b k ?next))"
    "\<forall>ace \<in> set (wire_entries b k ?next). length (Who ace) < 2 ^ 32"
    by (simp_all add: rest_def)
  moreover have "length (Who (wire_ace b cur)) < 2 ^ 32"
    unfolding a NFS4ACE.select_convs ls by (rule L32)
  ultimately show ?case by simp
qed

lemma canonical_layout_wire_image:
  assumes "canonical_layout b"
  shows "\<exists>a. length (aceList a) < 2 ^ 32 \<and>
             (\<forall>ace \<in> set (aceList a). length (Who ace) < 2 ^ 32) \<and> b = wire_image a"
proof -
  let ?c = "atom_at b 0"
  let ?a = "\<lparr>isDirectory = False, aceList = wire_entries b (unat ?c) 4\<rparr>"
  from assms have l: "4 \<le> length b" and z: "zero_padded_entries b (unat ?c) 4"
    by (simp_all add: canonical_layout_def)
  from zero_padded_entries_pack [OF z] have
    d: "drop 4 b = concat (map pack_ace (wire_entries b (unat ?c) 4))"
    and w: "\<forall>ace \<in> set (wire_entries b (unat ?c) 4). length (Who ace) < 2 ^ 32"
    by simp_all
  have n: "unat ?c < 2 ^ 32"
    using unsigned_less [of ?c, where 'a = nat] by simp
  have "b = be32 ?c @ drop 4 b"
    using be32_atom_at [of 0 b] l by simp
  then have "b = wire_image ?a"
    by (simp add: wire_image_def d)
  with n w show ?thesis
    by (intro exI [of _ ?a]) simp
qed

lemma reencode_wire_image:
  assumes "XAttrLoad (wire_image a) isDir = Some (acl, None)"
    and "length (aceList a) < 2 ^ 32" "\<forall>ace \<in> set (aceList a). length (Who ace) < 2 ^ 32"
  shows "PackXAttr acl = Some (wire_image a, None)"
proof -
  from assms(1) have acl: "acl = \<lparr>isDirectory = isDir, aceList = map rederive (aceList a)\<rparr>"
    unfolding XAttrLoad_wire_image [OF assms(2,3)] by (simp split: if_splits)
  have "\<forall>ace \<in> set (aceList acl). length (Who ace) < 2 ^ 32"
    using assms(3) by (simp add: acl rederive_def NewNFS4ACE_def)
  then have "PackXAttr acl = Some (wire_image acl, None)"
    by (rule PackXAttr_wire_image)
  then show ?thesis
    by (simp add: acl wire_image_rederive)
qed

section \<open>Results\<close>

text \<open>C1 (the code departs from the claim). The claim: whenever an entry declares a
  \<open>who_length\<close> larger than the bytes that remain after its four header atoms,
  \<open>XAttrLoad\<close> returns a decode error. The code checks the room for the four atoms but
  not the room for the who string: \<open>value[curAtom:(whoLen + curAtom)]\<close> is evaluated as it
  is, and a bound beyond the buffer is a run-time panic, not an \<open>error\<close> result. The
  24-byte buffer below holds one entry whose \<open>who_length\<close> is 100 with 4 bytes left.\<close>

theorem who_length_beyond_buffer_panics:
  "XAttrLoad [0,0,0,1, 0,0,0,0, 0,0,0,0, 0,0,0,2, 0,0,0,100, 1,2,3,4] False = None"
  by code_simp

text \<open>C2 (the code departs from the claim). The claim: decoding the encoding of any ACL,
  the empty who string included, succeeds and gives the entries back. The loop of
  \<open>XAttrLoad\<close> rejects an entry when \<open>curAtom + 4 * ATOM_SIZE >= maxAtom\<close>, under the comment
  "verify there's room in the buffer for the next 4 uint32s": an entry whose four atoms
  end exactly at the end of the buffer has that room and is rejected all the same. That is
  the case of a last entry with an empty who string. \<open>PackXAttr\<close> encodes the ACL below to
  20 bytes, and \<open>XAttrLoad\<close> answers these 20 bytes with "buffer overflow".\<close>

theorem empty_who_last_entry_not_decoded:
  "PackXAttr \<lparr>isDirectory = False, aceList = [NewNFS4ACE 0 0 2 '''']\<rparr> =
     Some ([0,0,0,1, 0,0,0,0, 0,0,0,0, 0,0,0,2, 0,0,0,0], None) \<and>
   XAttrLoad [0,0,0,1, 0,0,0,0, 0,0,0,0, 0,0,0,2, 0,0,0,0] False =
     Some (\<lparr>isDirectory = False, aceList = []\<rparr>, Some BufferOverflow)"
  by code_simp

text \<open>C3, counterexample. \<open>XAttrLoad\<close> accepts a buffer whose two padding bytes are
  \<open>0xFF\<close>; it never reads them. \<open>PackXAttr\<close> of the decoded ACL writes zeros there, so the
  bytes it returns differ from the buffer decoded.\<close>

theorem reencode_changes_padding:
  "XAttrLoad [0,0,0,1, 0,0,0,0, 0,0,0,0, 0,0,0,2, 0,0,0,6,
              0x4F,0x57,0x4E,0x45,0x52,0x40, 0xFF,0xFF] False =
     Some (\<lparr>isDirectory = False, aceList = [NewNFS4ACE 0 0 2 ''OWNER@'']\<rparr>, None) \<and>
   PackXAttr \<lparr>isDirectory = False, aceList = [NewNFS4ACE 0 0 2 ''OWNER@'']\<rparr> =
     Some ([0,0,0,1, 0,0,0,0, 0,0,0,0, 0,0,0,2, 0,0,0,6,
            0x4F,0x57,0x4E,0x45,0x52,0x40, 0,0], None) \<and>
   [0,0,0,1, 0,0,0,0, 0,0,0,0, 0,0,0,2, 0,0,0,6, 0x4F,0x57,0x4E,0x45,0x52,0x40, 0,0]
     \<noteq> [0,0,0,1, 0,0,0,0, 0,0,0,0, 0,0,0,2, 0,0,0,6,
         0x4F,0x57,0x4E,0x45,0x52,0x40, 0xFF,0xFF :: byte]"
  by code_simp

text \<open>C3 (amended). For a buffer \<open>b\<close> that \<open>XAttrLoad\<close> accepts without error, encoding
  the decoded ACL gives \<open>b\<close> back byte for byte exactly when \<open>b\<close> has the canonical
  layout: after the count atom it holds as many entries as the count atom says, every
  who string is followed by zero bytes up to the next multiple of 4, and the buffer ends
  with the last entry. The decoder also accepts buffers with other padding bytes, with a
  last padding cut short and with bytes after the last entry; for those the encoder
  returns different bytes.\<close>

theorem reencode_iff_canonical_layout:
  assumes "XAttrLoad b isDir = Some (acl, None)"
  shows "PackXAttr acl = Some (b, None) \<longleftrightarrow> canonical_layout b"
proof
  assume p: "PackXAttr acl = Some (b, None)"
  from XAttrLoad_result [OF assms] obtain n :: uint32 where
    n: "int (length (aceList acl)) = uint n"
    and d: "\<forall>ace \<in> set (aceList acl). decoded_ace ace"
    by auto
  have "uint n < 2 ^ 32" using uint_lt2p [of n] by simp
  with n have "int (length (aceList acl)) < 2 ^ 32" by simp
  then have l: "length (aceList acl) < 2 ^ 32" by simp
  from d have w: "\<forall>ace \<in> set (aceList acl). length (Who ace) < 2 ^ 32"
    by (simp add: decoded_ace_def)
  from p PackXAttr_wire_image [OF w] have "b = wire_image acl" by simp
  with canonical_wire_image [OF l w] show "canonical_layout b" by simp
next
  assume "canonical_layout b"
  then obtain a where a: "length (aceList a) < 2 ^ 32"
    "\<forall>ace \<in> set (aceList a). length (Who ace) < 2 ^ 32" and b: "b = wire_image a"
    using canonical_layout_wire_image by blast
  from assms show "PackXAttr acl = Some (b, None)"
    unfolding b by (rule reencode_wire_image) (rule a)+
qed

text \<open>C3, instance: the 28 bytes of one \<open>OWNER@\<close> entry with two zero padding bytes are
  accepted and have the canonical layout, and encoding the decoded ACL gives them
  back.\<close>

theorem reencode_iff_canonical_layout_witness:
  "XAttrLoad [0,0,0,1, 0,0,0,0, 0,0,0,0, 0,0,0,2, 0,0,0,6,
              0x4F,0x57,0x4E,0x45,0x52,0x40, 0,0] True =
     Some (\<lparr>isDirectory = True, aceList = [NewNFS4ACE 0 0 2 ''OWNER@'']\<rparr>, None) \<and>
   canonical_layout [0,0,0,1, 0,0,0,0, 0,0,0,0, 0,0,0,2, 0,0,0,6,
                     0x4F,0x57,0x4E,0x45,0x52,0x40, 0,0] \<and>
   PackXAttr \<lparr>isDirectory = True, aceList = [NewNFS4ACE 0 0 2 ''OWNER@'']\<rparr> =
     Some ([0,0,0,1, 0,0,0,0, 0,0,0,0, 0,0,0,2, 0,0,0,6,
            0x4F,0x57,0x4E,0x45,0x52,0x40, 0,0], None)"
proof -
  let ?b = "[0,0,0,1, 0,0,0,0, 0,0,0,0, 0,0,0,2, 0,0,0,6,
              0x4F,0x57,0x4E,0x45,0x52,0x40, 0,0] :: byte list"
  let ?acl = "\<lparr>isDirectory = True, aceList = [NewNFS4ACE 0 0 2 ''OWNER@'']\<rparr>"
  have d: "XAttrLoad ?b True = Some (?acl, None)"
    by code_simp
  have c: "canonical_layout ?b"
    by code_simp
  from reencode_iff_canonical_layout [OF d] c have "PackXAttr ?acl = Some (?b, None)"
    by (rule iffD2)
  with d c show ?thesis by (intro conjI)
qed




text \<open>C5. For every ACE and every 32-bit operand: \<open>applyAccessMask\<close> leaves
  \<open>access_mask OR operand\<close> in the access mask, \<open>removeAccessMask\<close> leaves
  \<open>access_mask AND NOT operand\<close>, and \<open>setAccessMask\<close> leaves the operand. From the mask
  \<open>0b00110101\<close> with the operand \<open>0b00000011\<close> they give \<open>0b00110111\<close>, \<open>0b00110100\<close> and
  \<open>0b00000011\<close>.\<close>

theorem mask_operation_semantics:
  "AccessMask (applyAccessMask ace m) = AccessMask ace OR m \<and>
   AccessMask (removeAccessMask ace m) = AccessMask ace AND NOT m \<and>
   AccessMask (setAccessMask ace m) = m \<and>
   AccessMask (applyAccessMask (ace\<lparr>AccessMask := 0b00110101\<rparr>) 0b00000011) = 0b00110111 \<and>
   AccessMask (removeAccessMask (ace\<lparr>AccessMask := 0b00110101\<rparr>) 0b00000011) = 0b00110100 \<and>
   AccessMask (setAccessMask (ace\<lparr>AccessMask := 0b00110101\<rparr>) 0b00000011) = 0b00000011"
  by (simp add: applyAccessMask_def removeAccessMask_def setAccessMask_def)

text \<open>C6. \<open>AceGetWhoType\<close> is an exact match on three literals: the result is OWNER,
  GROUP or EVERYONE exactly for the strings "OWNER@", "GROUP@" and "EVERYONE@", and NAMED
  exactly for every other string, among them the empty string, "owner@" and "OWNER@ "
  with a trailing space. \<open>NewNFS4ACE\<close> stores this value as the who type of the who string
  it is given, and every entry of an ACL returned by \<open>XAttrLoad\<close> (with or without an
  error) has the who type derived from its who string.\<close>

theorem who_type_derivation:
  "(AceGetWhoType who = NFS4_ACL_WHO_OWNER \<longleftrightarrow> who = ''OWNER@'') \<and>
   (AceGetWhoType who = NFS4_ACL_WHO_GROUP \<longleftrightarrow> who = ''GROUP@'') \<and>
   (AceGetWhoType who = NFS4_ACL_WHO_EVERYONE \<longleftrightarrow> who = ''EVERYONE@'') \<and>
   (AceGetWhoType who = NFS4_ACL_WHO_NAMED \<longleftrightarrow>
      who \<noteq> ''OWNER@'' \<and> who \<noteq> ''GROUP@'' \<and> who \<noteq> ''EVERYONE@'') \<and>
   AceGetWhoType '''' = NFS4_ACL_WHO_NAMED \<and>
   AceGetWhoType ''owner@'' = NFS4_ACL_WHO_NAMED \<and>
   AceGetWhoType ''OWNER@ '' = NFS4_ACL_WHO_NAMED \<and>
   WhoType (NewNFS4ACE aceType flag mask' who) = AceGetWhoType who \<and>
   Who (NewNFS4ACE aceType flag mask' who) = who \<and>
   (XAttrLoad v isDir = Some (acl, err) \<longrightarrow>
      (\<forall>ace \<in> set (aceList acl). WhoType ace = AceGetWhoType (Who ace)))"
proof -
  note defs = AceGetWhoType_def NFS4_ACL_WHO_OWNER_STRING_def NFS4_ACL_WHO_GROUP_STRING_def
    NFS4_ACL_WHO_EVERYONE_STRING_def NFS4_ACL_WHO_NAMED_def NFS4_ACL_WHO_OWNER_def
    NFS4_ACL_WHO_GROUP_def NFS4_ACL_WHO_EVERYONE_def
  have owner: "AceGetWhoType who = NFS4_ACL_WHO_OWNER \<longleftrightarrow> who = ''OWNER@''"
    by (simp add: defs)
  have grp: "AceGetWhoType who = NFS4_ACL_WHO_GROUP \<longleftrightarrow> who = ''GROUP@''"
    by (simp add: defs)
  have everyone: "AceGetWhoType who = NFS4_ACL_WHO_EVERYONE \<longleftrightarrow> who = ''EVERYONE@''"
    by (simp add: defs)
  have named: "AceGetWhoType who = NFS4_ACL_WHO_NAMED \<longleftrightarrow>
      who \<noteq> ''OWNER@'' \<and> who \<noteq> ''GROUP@'' \<and> who \<noteq> ''EVERYONE@''"
    by (simp add: defs)
  have e1: "AceGetWhoType '''' = NFS4_ACL_WHO_NAMED" by (simp add: defs)
  have e2: "AceGetWhoType ''owner@'' = NFS4_ACL_WHO_NAMED" by (simp add: defs)
  have e3: "AceGetWhoType ''OWNER@ '' = NFS4_ACL_WHO_NAMED" by (simp add: defs)
  have n1: "WhoType (NewNFS4ACE aceType flag mask' who) = AceGetWhoType who"
    by (simp add: NewNFS4ACE_def)
  have n2: "Who (NewNFS4ACE aceType flag mask' who) = who"
    by (simp add: NewNFS4ACE_def)
  have dec: "XAttrLoad v isDir = Some (acl, err) \<longrightarrow>
      (\<forall>ace \<in> set (aceList acl). WhoType ace = AceGetWhoType (Who ace))"
  proof
    assume "XAttrLoad v isDir = Some (acl, err)"
    then have "\<forall>ace \<in> set (aceList acl). decoded_ace ace"
      by (rule XAttrLoad_result [THEN conjunct2, THEN conjunct1])
    then show "\<forall>ace \<in> set (aceList acl). WhoType ace = AceGetWhoType (Who ace)"
      by (simp add: decoded_ace_def)
  qed
  from owner grp everyone named e1 e2 e3 n1 n2 dec show ?thesis
    by (intro conjI)
qed

text \<open>C6, instance: a decoded \<open>GROUP@\<close> entry.\<close>

theorem who_type_derivation_witness:
  "XAttrLoad [0,0,0,1, 0,0,0,1, 0,0,0,0, 0,0,0,1, 0,0,0,6,
              0x47,0x52,0x4F,0x55,0x50,0x40, 0,0, 0] False =
     Some (\<lparr>isDirectory = False,
            aceList = [\<lparr>AceType = 1, WhoType = 2, Who = ''GROUP@'', Flags = 0,
                        AccessMask = 1\<rparr>]\<rparr>, None) \<and>
   AceGetWhoType ''GROUP@'' = 2"
proof -
  let ?v = "[0,0,0,1, 0,0,0,1, 0,0,0,0, 0,0,0,1, 0,0,0,6,
              0x47,0x52,0x4F,0x55,0x50,0x40, 0,0, 0] :: byte list"
  let ?ace = "\<lparr>AceType = 1, WhoType = 2, Who = ''GROUP@'', Flags = 0, AccessMask = 1\<rparr>"
  let ?acl = "\<lparr>isDirectory = False, aceList = [?ace]\<rparr>"
  have d: "XAttrLoad ?v False = Some (?acl, None)"
    by code_simp
  have "XAttrLoad ?v False = Some (?acl, None) \<longrightarrow>
      (\<forall>ace \<in> set (aceList ?acl). WhoType ace = AceGetWhoType (Who ace))"
    by (rule who_type_derivation [THEN conjunct2, THEN conjunct2, THEN conjunct2,
          THEN conjunct2, THEN conjunct2, THEN conjunct2, THEN conjunct2, THEN conjunct2,
          THEN conjunct2])
  from this d have "\<forall>ace \<in> set (aceList ?acl). WhoType ace = AceGetWhoType (Who ace)"
    by (rule mp)
  then have "AceGetWhoType ''GROUP@'' = 2" by simp
  with d show ?thesis by (rule conjI)
qed

text \<open>C7. For every ACL and every operand, each of the three by-who-type mutations
  called with a who type that is not OWNER, GROUP or EVERYONE (that is, NAMED or a value
  above EVERYONE) returns an error of the class InvalidTargetingArgument together with
  the ACL exactly as it was.\<close>

theorem by_who_type_rejects_unsupported:
  assumes "whoType \<notin> {NFS4_ACL_WHO_OWNER, NFS4_ACL_WHO_GROUP, NFS4_ACL_WHO_EVERYONE}"
  shows "(\<exists>e. ApplyAccessMaskByWhoType acl accessMask whoType = (acl, Some e) \<and>
              InvalidTargetingArgument e) \<and>
         (\<exists>e. RemoveAccessMaskByWhoType acl accessMask whoType = (acl, Some e) \<and>
              InvalidTargetingArgument e) \<and>
         (\<exists>e. SetAccessMaskByWhoType acl accessMask whoType = (acl, Some e) \<and>
              InvalidTargetingArgument e)"
  using not_target_who_type [OF assms]
  by (auto simp add: ApplyAccessMaskByWhoType_def RemoveAccessMaskByWhoType_def
      SetAccessMaskByWhoType_def InvalidTargetingArgument_def)

text \<open>C7, instances: the who types NAMED and 7.\<close>

theorem by_who_type_rejects_unsupported_witness:
  "NFS4_ACL_WHO_NAMED \<notin> {NFS4_ACL_WHO_OWNER, NFS4_ACL_WHO_GROUP, NFS4_ACL_WHO_EVERYONE} \<and>
   (7 :: uint) \<notin> {NFS4_ACL_WHO_OWNER, NFS4_ACL_WHO_GROUP, NFS4_ACL_WHO_EVERYONE} \<and>
   fst (ApplyAccessMaskByWhoType
          \<lparr>isDirectory = False, aceList = [NewNFS4ACE 0 0 1 ''OWNER@'']\<rparr> 6 NFS4_ACL_WHO_NAMED) =
     \<lparr>isDirectory = False, aceList = [NewNFS4ACE 0 0 1 ''OWNER@'']\<rparr> \<and>
   snd (ApplyAccessMaskByWhoType
          \<lparr>isDirectory = False, aceList = [NewNFS4ACE 0 0 1 ''OWNER@'']\<rparr> 6 NFS4_ACL_WHO_NAMED) \<noteq> None \<and>
   fst (SetAccessMaskByWhoType
          \<lparr>isDirectory = False, aceList = [NewNFS4ACE 0 0 1 ''OWNER@'']\<rparr> 6 7) =
     \<lparr>isDirectory = False, aceList = [NewNFS4ACE 0 0 1 ''OWNER@'']\<rparr> \<and>
   snd (SetAccessMaskByWhoType
          \<lparr>isDirectory = False, aceList = [NewNFS4ACE 0 0 1 ''OWNER@'']\<rparr> 6 7) \<noteq> None"
proof -
  let ?acl = "\<lparr>isDirectory = False, aceList = [NewNFS4ACE 0 0 1 ''OWNER@'']\<rparr>"
  have h0: "NFS4_ACL_WHO_NAMED \<notin> {NFS4_ACL_WHO_OWNER, NFS4_ACL_WHO_GROUP, NFS4_ACL_WHO_EVERYONE}"
    by (simp add: NFS4_ACL_WHO_NAMED_def NFS4_ACL_WHO_OWNER_def NFS4_ACL_WHO_GROUP_def
        NFS4_ACL_WHO_EVERYONE_def)
  have h7: "(7 :: uint) \<notin> {NFS4_ACL_WHO_OWNER, NFS4_ACL_WHO_GROUP, NFS4_ACL_WHO_EVERYONE}"
    by (simp add: NFS4_ACL_WHO_OWNER_def NFS4_ACL_WHO_GROUP_def NFS4_ACL_WHO_EVERYONE_def)
  from by_who_type_rejects_unsupported [OF h0, of ?acl 6]
  have a: "fst (ApplyAccessMaskByWhoType ?acl 6 NFS4_ACL_WHO_NAMED) = ?acl \<and>
           snd (ApplyAccessMaskByWhoType ?acl 6 NFS4_ACL_WHO_NAMED) \<noteq> None"
    by auto
  from by_who_type_rejects_unsupported [OF h7, of ?acl 6]
  have s: "fst (SetAccessMaskByWhoType ?acl 6 7) = ?acl \<and>
           snd (SetAccessMaskByWhoType ?acl 6 7) \<noteq> None"
    by auto
  from h0 h7 a s show ?thesis by blast
qed

text \<open>C8, counterexample. The claim is made for any non-negative byte length. For the
  largest \<open>int\<close>, \<open>2^63 - 1\<close>, the multiple of 4 below it is \<open>2^63 - 4\<close>, and adding
  \<open>ATOM_SIZE\<close> wraps around: the result is \<open>- 2^63\<close>, which is less than the length.\<close>

theorem AceWhoStringAtomLength_wraps:
  "AceWhoStringAtomLength 9223372036854775807 = - 9223372036854775808"
  by (simp add: AceWhoStringAtomLength_def ATOM_SIZE_def signed_divide_int_def wrap_int_def)

text \<open>C8 (amended). For every non-negative byte length \<open>n\<close> of at most \<open>2^63 - 4\<close> (the
  largest \<open>int\<close> less three), \<open>AceWhoStringAtomLength n\<close> is \<open>n\<close> rounded up to the next
  multiple of 4: it is a multiple of 4, it is at least \<open>n\<close> and less than \<open>n + 4\<close>, and it
  is \<open>n\<close> itself when \<open>n\<close> is a multiple of 4. In particular the lengths 0, 4, 5 and 7 give
  0, 4, 8 and 8.\<close>

theorem AceWhoStringAtomLength_rounds_up:
  "(0 \<le> n \<and> n \<le> 9223372036854775804 \<longrightarrow>
      AceWhoStringAtomLength n mod 4 = 0 \<and> n \<le> AceWhoStringAtomLength n \<and>
      AceWhoStringAtomLength n < n + 4 \<and>
      (n mod 4 = 0 \<longrightarrow> AceWhoStringAtomLength n = n)) \<and>
   AceWhoStringAtomLength 0 = 0 \<and> AceWhoStringAtomLength 4 = 4 \<and>
   AceWhoStringAtomLength 5 = 8 \<and> AceWhoStringAtomLength 7 = 8"
proof -
  have gen: "AceWhoStringAtomLength n mod 4 = 0 \<and> n \<le> AceWhoStringAtomLength n \<and>
      AceWhoStringAtomLength n < n + 4 \<and>
      (n mod 4 = 0 \<longrightarrow> AceWhoStringAtomLength n = n)"
    if "0 \<le> n \<and> n \<le> 9223372036854775804"
  proof -
    from that have "AceWhoStringAtomLength n = (n + 3) div 4 * 4"
      by (intro AceWhoStringAtomLength_in_range) simp_all
    then show ?thesis by presburger
  qed
  have vals: "AceWhoStringAtomLength 0 = 0 \<and> AceWhoStringAtomLength 4 = 4 \<and>
      AceWhoStringAtomLength 5 = 8 \<and> AceWhoStringAtomLength 7 = 8"
    by (simp add: AceWhoStringAtomLength_def ATOM_SIZE_def signed_divide_int_def wrap_int_def)
  from gen vals show ?thesis by blast
qed

text \<open>C8, instances: the lengths 6 and 8, and the largest length of the range.\<close>

theorem AceWhoStringAtomLength_rounds_up_witness:
  "(0::int) \<le> 6 \<and> (6::int) \<le> 9223372036854775804 \<and> 6 mod 4 \<noteq> (0::int) \<and>
   (8::int) mod 4 = 0 \<and>
   AceWhoStringAtomLength 6 = 8 \<and> AceWhoStringAtomLength 8 = 8 \<and>
   AceWhoStringAtomLength 9223372036854775804 = 9223372036854775804"
proof -
  have six: "AceWhoStringAtomLength 6 mod 4 = 0 \<and> 6 \<le> AceWhoStringAtomLength 6 \<and>
      AceWhoStringAtomLength 6 < 6 + 4"
    using AceWhoStringAtomLength_rounds_up [of 6] by simp
  have eight: "AceWhoStringAtomLength 8 = 8"
    using AceWhoStringAtomLength_rounds_up [of 8] by simp
  have top: "AceWhoStringAtomLength 9223372036854775804 = 9223372036854775804"
    using AceWhoStringAtomLength_rounds_up [of 9223372036854775804] by simp
  from six have "AceWhoStringAtomLength 6 = 8" by presburger
  with eight top show ?thesis by simp
qed

text \<open>C9, counterexample. No entry of the ACL below has the who type NAMED, so a
  by-who-type call for NAMED selects no entry; the call is rejected with
  "named who not allowed" all the same (and leaves the ACL as it is).\<close>

theorem zero_selection_rejected_for_named:
  "WhoType (NewNFS4ACE 0 0 1 ''OWNER@'') \<noteq> NFS4_ACL_WHO_NAMED \<and>
   ApplyAccessMaskByWhoType
     \<lparr>isDirectory = False, aceList = [NewNFS4ACE 0 0 1 ''OWNER@'']\<rparr> 4 NFS4_ACL_WHO_NAMED =
     (\<lparr>isDirectory = False, aceList = [NewNFS4ACE 0 0 1 ''OWNER@'']\<rparr>,
      Some NamedWhoNotAllowed)"
  by (simp add: ApplyAccessMaskByWhoType_def NewNFS4ACE_def AceGetWhoType_def
      NFS4_ACL_WHO_OWNER_STRING_def NFS4_ACL_WHO_NAMED_def NFS4_ACL_WHO_OWNER_def)

text \<open>C9 (amended). Each of the nine mutations (apply, remove, set; on all entries, by
  who type, by who string) keeps the directory flag, the number of entries and their
  order, keeps the type, who type, who string and flags of every entry, replaces the
  access mask of each selected entry by the operation's result and keeps the access mask
  of every other entry. The by-who mutations return no error, and neither do the
  by-who-type mutations for the who types OWNER, GROUP and EVERYONE; for these calls,
  selecting no entry is not an error and leaves the ACL identical. A by-who-type mutation
  for any other who type returns an error and the ACL as it was, whether or not an entry
  has that who type.\<close>

theorem mutations_change_selected_masks_only:
  "changes_masks_only (\<lambda>ace. True) (\<lambda>x. x OR m) acl (ApplyAccessMask acl m) \<and>
   changes_masks_only (\<lambda>ace. True) (\<lambda>x. x AND NOT m) acl (RemoveAccessMask acl m) \<and>
   changes_masks_only (\<lambda>ace. True) (\<lambda>x. m) acl (SetAccessMask acl m) \<and>
   (whoType \<in> {NFS4_ACL_WHO_OWNER, NFS4_ACL_WHO_GROUP, NFS4_ACL_WHO_EVERYONE} \<longrightarrow>
      snd (ApplyAccessMaskByWhoType acl m whoType) = None \<and>
      changes_masks_only (\<lambda>ace. WhoType ace = whoType) (\<lambda>x. x OR m) acl
        (fst (ApplyAccessMaskByWhoType acl m whoType)) \<and>
      snd (RemoveAccessMaskByWhoType acl m whoType) = None \<and>
      changes_masks_only (\<lambda>ace. WhoType ace = whoType) (\<lambda>x. x AND NOT m) acl
        (fst (RemoveAccessMaskByWhoType acl m whoType)) \<and>
      snd (SetAccessMaskByWhoType acl m whoType) = None \<and>
      changes_masks_only (\<lambda>ace. WhoType ace = whoType) (\<lambda>x. m) acl
        (fst (SetAccessMaskByWhoType acl m whoType))) \<and>
   (whoType \<notin> {NFS4_ACL_WHO_OWNER, NFS4_ACL_WHO_GROUP, NFS4_ACL_WHO_EVERYONE} \<longrightarrow>
      snd (ApplyAccessMaskByWhoType acl m whoType) \<noteq> None \<and>
      fst (ApplyAccessMaskByWhoType acl m whoType) = acl \<and>
      snd (RemoveAccessMaskByWhoType acl m whoType) \<noteq> None \<and>
      fst (RemoveAccessMaskByWhoType acl m whoType) = acl \<and>
      snd (SetAccessMaskByWhoType acl m whoType) \<noteq> None \<and>
      fst (SetAccessMaskByWhoType acl m whoType) = acl) \<and>
   snd (ApplyAccessMaskByWho acl m who) = None \<and>
   changes_masks_only (\<lambda>ace. Who ace = who) (\<lambda>x. x OR m) acl
     (fst (ApplyAccessMaskByWho acl m who)) \<and>
   snd (RemoveAccessMaskByWho acl m who) = None \<and>
   changes_masks_only (\<lambda>ace. Who ace = who) (\<lambda>x. x AND NOT m) acl
     (fst (RemoveAccessMaskByWho acl m who)) \<and>
   snd (SetAccessMaskByWho acl m who) = None \<and>
   changes_masks_only (\<lambda>ace. Who ace = who) (\<lambda>x. m) acl
     (fst (SetAccessMaskByWho acl m who)) \<and>
   (changes_masks_only selected f acl acl' \<and> (\<forall>ace \<in> set (aceList acl). \<not> selected ace)
      \<longrightarrow> acl' = acl)"
proof -
  have all1: "changes_masks_only (\<lambda>ace. True) (\<lambda>x. x OR m) acl (ApplyAccessMask acl m)"
    using changes_masks_only_apply [of "\<lambda>ace. True" m acl] by (simp add: ApplyAccessMask_def)
  have all2: "changes_masks_only (\<lambda>ace. True) (\<lambda>x. x AND NOT m) acl (RemoveAccessMask acl m)"
    using changes_masks_only_remove [of "\<lambda>ace. True" m acl] by (simp add: RemoveAccessMask_def)
  have all3: "changes_masks_only (\<lambda>ace. True) (\<lambda>x. m) acl (SetAccessMask acl m)"
    using changes_masks_only_set [of "\<lambda>ace. True" m acl] by (simp add: SetAccessMask_def)
  have wt: "whoType \<in> {NFS4_ACL_WHO_OWNER, NFS4_ACL_WHO_GROUP, NFS4_ACL_WHO_EVERYONE} \<longrightarrow>
      snd (ApplyAccessMaskByWhoType acl m whoType) = None \<and>
      changes_masks_only (\<lambda>ace. WhoType ace = whoType) (\<lambda>x. x OR m) acl
        (fst (ApplyAccessMaskByWhoType acl m whoType)) \<and>
      snd (RemoveAccessMaskByWhoType acl m whoType) = None \<and>
      changes_masks_only (\<lambda>ace. WhoType ace = whoType) (\<lambda>x. x AND NOT m) acl
        (fst (RemoveAccessMaskByWhoType acl m whoType)) \<and>
      snd (SetAccessMaskByWhoType acl m whoType) = None \<and>
      changes_masks_only (\<lambda>ace. WhoType ace = whoType) (\<lambda>x. m) acl
        (fst (SetAccessMaskByWhoType acl m whoType))"
  proof
    assume "whoType \<in> {NFS4_ACL_WHO_OWNER, NFS4_ACL_WHO_GROUP, NFS4_ACL_WHO_EVERYONE}"
    then have ok: "whoType \<noteq> NFS4_ACL_WHO_NAMED"
      "\<not> (whoType < NFS4_ACL_WHO_NAMED \<or> whoType > NFS4_ACL_WHO_EVERYONE)"
      using target_who_type by blast+
    show "snd (ApplyAccessMaskByWhoType acl m whoType) = None \<and>
      changes_masks_only (\<lambda>ace. WhoType ace = whoType) (\<lambda>x. x OR m) acl
        (fst (ApplyAccessMaskByWhoType acl m whoType)) \<and>
      snd (RemoveAccessMaskByWhoType acl m whoType) = None \<and>
      changes_masks_only (\<lambda>ace. WhoType ace = whoType) (\<lambda>x. x AND NOT m) acl
        (fst (RemoveAccessMaskByWhoType acl m whoType)) \<and>
      snd (SetAccessMaskByWhoType acl m whoType) = None \<and>
      changes_masks_only (\<lambda>ace. WhoType ace = whoType) (\<lambda>x. m) acl
        (fst (SetAccessMaskByWhoType acl m whoType))"
      unfolding ApplyAccessMaskByWhoType_def RemoveAccessMaskByWhoType_def
        SetAccessMaskByWhoType_def
      using ok
        changes_masks_only_apply [of "\<lambda>ace. WhoType ace = whoType" m acl]
        changes_masks_only_remove [of "\<lambda>ace. WhoType ace = whoType" m acl]
        changes_masks_only_set [of "\<lambda>ace. WhoType ace = whoType" m acl]
      by simp
  qed
  have rej: "whoType \<notin> {NFS4_ACL_WHO_OWNER, NFS4_ACL_WHO_GROUP, NFS4_ACL_WHO_EVERYONE} \<longrightarrow>
      snd (ApplyAccessMaskByWhoType acl m whoType) \<noteq> None \<and>
      fst (ApplyAccessMaskByWhoType acl m whoType) = acl \<and>
      snd (RemoveAccessMaskByWhoType acl m whoType) \<noteq> None \<and>
      fst (RemoveAccessMaskByWhoType acl m whoType) = acl \<and>
      snd (SetAccessMaskByWhoType acl m whoType) \<noteq> None \<and>
      fst (SetAccessMaskByWhoType acl m whoType) = acl"
    using not_target_who_type [of whoType]
    by (auto simp add: ApplyAccessMaskByWhoType_def RemoveAccessMaskByWhoType_def
        SetAccessMaskByWhoType_def)
  have who: "snd (ApplyAccessMaskByWho acl m who) = None \<and>
   changes_masks_only (\<lambda>ace. Who ace = who) (\<lambda>x. x OR m) acl
     (fst (ApplyAccessMaskByWho acl m who)) \<and>
   snd (RemoveAccessMaskByWho acl m who) = None \<and>
   changes_masks_only (\<lambda>ace. Who ace = who) (\<lambda>x. x AND NOT m) acl
     (fst (RemoveAccessMaskByWho acl m who)) \<and>
   snd (SetAccessMaskByWho acl m who) = None \<and>
   changes_masks_only (\<lambda>ace. Who ace = who) (\<lambda>x. m) acl
     (fst (SetAccessMaskByWho acl m who))"
    unfolding ApplyAccessMaskByWho_def RemoveAccessMaskByWho_def SetAccessMaskByWho_def
    using changes_masks_only_apply [of "\<lambda>ace. Who ace = who" m acl]
      changes_masks_only_remove [of "\<lambda>ace. Who ace = who" m acl]
      changes_masks_only_set [of "\<lambda>ace. Who ace = who" m acl]
    by simp
  have none: "changes_masks_only selected f acl acl' \<and>
      (\<forall>ace \<in> set (aceList acl). \<not> selected ace) \<longrightarrow> acl' = acl"
    using changes_masks_only_none_selected [of selected f acl acl'] by blast
  from all1 all2 all3 wt rej who none show ?thesis by blast
qed

text \<open>C9, instances: a by-who-type call for OWNER, and a by-who call for a who string
  that no entry has.\<close>

theorem mutations_change_selected_masks_only_witness:
  "NFS4_ACL_WHO_OWNER \<in> {NFS4_ACL_WHO_OWNER, NFS4_ACL_WHO_GROUP, NFS4_ACL_WHO_EVERYONE} \<and>
   snd (ApplyAccessMaskByWhoType
          \<lparr>isDirectory = False,
            aceList = [NewNFS4ACE 0 0 1 ''OWNER@'', NewNFS4ACE 1 0 2 ''GROUP@'']\<rparr>
          4 NFS4_ACL_WHO_OWNER) = None \<and>
   NFS4_ACL_WHO_NAMED \<notin> {NFS4_ACL_WHO_OWNER, NFS4_ACL_WHO_GROUP, NFS4_ACL_WHO_EVERYONE} \<and>
   fst (RemoveAccessMaskByWhoType
          \<lparr>isDirectory = False,
            aceList = [NewNFS4ACE 0 0 1 ''OWNER@'', NewNFS4ACE 1 0 2 ''GROUP@'']\<rparr>
          4 NFS4_ACL_WHO_NAMED) =
     \<lparr>isDirectory = False,
       aceList = [NewNFS4ACE 0 0 1 ''OWNER@'', NewNFS4ACE 1 0 2 ''GROUP@'']\<rparr> \<and>
   Who (NewNFS4ACE 0 0 1 ''OWNER@'') \<noteq> ''alice'' \<and>
   Who (NewNFS4ACE 1 0 2 ''GROUP@'') \<noteq> ''alice'' \<and>
   fst (SetAccessMaskByWho
          \<lparr>isDirectory = False,
            aceList = [NewNFS4ACE 0 0 1 ''OWNER@'', NewNFS4ACE 1 0 2 ''GROUP@'']\<rparr>
          4 ''alice'') =
     \<lparr>isDirectory = False,
       aceList = [NewNFS4ACE 0 0 1 ''OWNER@'', NewNFS4ACE 1 0 2 ''GROUP@'']\<rparr>"
proof -
  let ?acl = "\<lparr>isDirectory = False,
                aceList = [NewNFS4ACE 0 0 1 ''OWNER@'', NewNFS4ACE 1 0 2 ''GROUP@'']\<rparr>"
  let ?sel = "\<lambda>ace. Who ace = ''alice''"
  let ?acl' = "fst (SetAccessMaskByWho ?acl 4 ''alice'')"
  note T = mutations_change_selected_masks_only
             [of 4 ?acl NFS4_ACL_WHO_OWNER "''alice''" ?sel "\<lambda>x. 4" ?acl']
  note N = mutations_change_selected_masks_only [of 4 ?acl NFS4_ACL_WHO_NAMED]
  have h1: "NFS4_ACL_WHO_OWNER \<in> {NFS4_ACL_WHO_OWNER, NFS4_ACL_WHO_GROUP, NFS4_ACL_WHO_EVERYONE}"
    by simp
  have h0: "NFS4_ACL_WHO_NAMED \<notin> {NFS4_ACL_WHO_OWNER, NFS4_ACL_WHO_GROUP, NFS4_ACL_WHO_EVERYONE}"
    by (simp add: NFS4_ACL_WHO_NAMED_def NFS4_ACL_WHO_OWNER_def NFS4_ACL_WHO_GROUP_def
        NFS4_ACL_WHO_EVERYONE_def)
  have a1: "Who (NewNFS4ACE 0 0 1 ''OWNER@'') \<noteq> ''alice''"
    and a2: "Who (NewNFS4ACE 1 0 2 ''GROUP@'') \<noteq> ''alice''"
    by (simp_all add: NewNFS4ACE_def)
  then have h2: "\<forall>ace \<in> set (aceList ?acl). \<not> ?sel ace"
    by simp
  from T h1 have c1: "snd (ApplyAccessMaskByWhoType ?acl 4 NFS4_ACL_WHO_OWNER) = None"
    by blast
  from N h0 have c0: "fst (RemoveAccessMaskByWhoType ?acl 4 NFS4_ACL_WHO_NAMED) = ?acl"
    by blast
  from T have "changes_masks_only ?sel (\<lambda>x. 4) ?acl ?acl'"
    by blast
  with T h2 have c2: "?acl' = ?acl"
    by blast
  from h1 c1 h0 c0 a1 a2 c2 show ?thesis by (intro conjI)
qed

text \<open>C10, counterexample. The sequence of the scenario (five atoms, the six bytes of
  "OWNER@", two padding bytes) has 28 bytes, not 24; cut to its first 24 bytes it is not
  decoded at all, the who string then reaching beyond the buffer.\<close>

theorem scenario_sequence_has_28_bytes:
  "length [0,0,0,1, 0,0,0,0, 0,0,0,0, 0,0,0,2, 0,0,0,6,
           0x4F,0x57,0x4E,0x45,0x52,0x40, 0,0 :: byte] \<noteq> 24 \<and>
   XAttrLoad (take 24 [0,0,0,1, 0,0,0,0, 0,0,0,0, 0,0,0,2, 0,0,0,6,
                       0x4F,0x57,0x4E,0x45,0x52,0x40, 0,0]) False = None"
proof -
  have "XAttrLoad (take 24 [0,0,0,1, 0,0,0,0, 0,0,0,0, 0,0,0,2, 0,0,0,6,
                       0x4F,0x57,0x4E,0x45,0x52,0x40, 0,0]) False = None"
    by code_simp
  then show ?thesis by simp
qed

text \<open>C10 (amended). The 28 bytes made of the atoms 1, 0, 0, 2, 6, the bytes of "OWNER@"
  and any two padding bytes decode without error to exactly one ACE with type ALLOW,
  flags 0, access mask WRITE_DATA alone, who "OWNER@" and who type OWNER. \<open>PrintACE\<close> of
  this ACE with \<open>verbose = false\<close> and \<open>isDir = false\<close> fills its buffer with
  \<open>A::OWNER@:w\<close> and prints it as one line.\<close>

theorem scenario_owner_write:
  "length [0,0,0,1, 0,0,0,0, 0,0,0,0, 0,0,0,2, 0,0,0,6,
           0x4F,0x57,0x4E,0x45,0x52,0x40, pad1, pad2 :: byte] = 28 \<and>
   XAttrLoad [0,0,0,1, 0,0,0,0, 0,0,0,0, 0,0,0,2, 0,0,0,6,
              0x4F,0x57,0x4E,0x45,0x52,0x40, pad1, pad2] False =
     Some (\<lparr>isDirectory = False,
            aceList = [\<lparr>AceType = NFS4_ACE_ACCESS_ALLOWED_ACE_TYPE,
                        WhoType = NFS4_ACL_WHO_OWNER, Who = ''OWNER@'', Flags = 0,
                        AccessMask = NFS4_ACE_WRITE_DATA\<rparr>]\<rparr>, None) \<and>
   PrintACE_buffer
     \<lparr>AceType = NFS4_ACE_ACCESS_ALLOWED_ACE_TYPE, WhoType = NFS4_ACL_WHO_OWNER,
      Who = ''OWNER@'', Flags = 0, AccessMask = NFS4_ACE_WRITE_DATA\<rparr> False False =
     ''A::OWNER@:w'' \<and>
   PrintACE []
     \<lparr>AceType = NFS4_ACE_ACCESS_ALLOWED_ACE_TYPE, WhoType = NFS4_ACL_WHO_OWNER,
      Who = ''OWNER@'', Flags = 0, AccessMask = NFS4_ACE_WRITE_DATA\<rparr> False False =
     ([''A::OWNER@:w''], None)"
proof -
  let ?ace = "\<lparr>AceType = NFS4_ACE_ACCESS_ALLOWED_ACE_TYPE, WhoType = NFS4_ACL_WHO_OWNER,
      Who = ''OWNER@'', Flags = 0, AccessMask = NFS4_ACE_WRITE_DATA\<rparr>"
  have l: "length [0,0,0,1, 0,0,0,0, 0,0,0,0, 0,0,0,2, 0,0,0,6,
           0x4F,0x57,0x4E,0x45,0x52,0x40, pad1, pad2 :: byte] = 28"
    by simp
  have d: "XAttrLoad [0,0,0,1, 0,0,0,0, 0,0,0,0, 0,0,0,2, 0,0,0,6,
              0x4F,0x57,0x4E,0x45,0x52,0x40, pad1, pad2] False =
     Some (\<lparr>isDirectory = False, aceList = [?ace]\<rparr>, None)"
    by (simp add: XAttrLoad_def XAttrLoad_loop.simps ATOM_SIZE_def slice_from_def
        slice_range_def Uint32_def AceWhoStringAtomLength_def wrap_int_def
        signed_divide_int_def
        string_of_bytes_def byte_to_char_def char_of_def bit_Suc_0_iff NewNFS4ACE_def
        AceGetWhoType_def NFS4_ACL_WHO_OWNER_STRING_def NFS4_ACE_ACCESS_ALLOWED_ACE_TYPE_def
        NFS4_ACE_WRITE_DATA_def)
  have p: "PrintACE_buffer ?ace False False = ''A::OWNER@:w''"
    by code_simp
  then have q: "PrintACE [] ?ace False False = ([''A::OWNER@:w''], None)"
    by (simp add: PrintACE_def)
  from l d p q show ?thesis by (intro conjI)
qed

end
